theory Spec2Isabelle
  imports Complex_Main
begin

section \<open>Time, as the collector uses it\<close>

text \<open>
  A \<^verbatim>\<open>time.Time\<close> is an instant, here the number of nanoseconds since the Unix
  epoch; a \<^verbatim>\<open>time.Duration\<close> is a signed 64-bit count of nanoseconds.
  \<^verbatim>\<open>Time.Sub\<close> saturates at the ends of the 64-bit range, \<^verbatim>\<open>Duration.Seconds\<close>
  converts to seconds and \<^verbatim>\<open>Time.Unix\<close> rounds down to whole seconds.
  Seconds are floating-point numbers in the program; they are exact numbers here.
\<close>

type_synonym time = int
type_synonym duration = int

definition Second :: duration where
  "Second = 1000000000"

definition Minute :: duration where
  "Minute = 60 * Second"

definition Hour :: duration where
  "Hour = 60 * Minute"

definition minDuration :: duration where
  "minDuration = - (2 ^ 63)"

definition maxDuration :: duration where
  "maxDuration = 2 ^ 63 - 1"

definition Sub :: "time \<Rightarrow> time \<Rightarrow> duration" where
  "Sub t u =
     (let d = t - u in
      if d < minDuration then minDuration
      else if maxDuration < d then maxDuration
      else d)"

definition Seconds :: "duration \<Rightarrow> real" where
  "Seconds d = real_of_int d / 1000000000"

definition Unix :: "time \<Rightarrow> int" where
  "Unix t = t div 1000000000"

definition ReconnectWindow :: duration where
  "ReconnectWindow = 5 * Minute"

definition ProblematicSessionThreshold :: real where
  "ProblematicSessionThreshold = 60"

definition MaxSessionAge :: duration where
  "MaxSessionAge = 24 * Hour"

section \<open>Events\<close>

datatype EventType =
    EventUnknown
  | EventUserLogin
  | EventUserDisconnect
  | EventSessionStart
  | EventSessionInvalidate
  | EventVPNIPAssigned
  | EventAuthFailed
  | EventByePacket
  | EventDPDWarning
  | EventSecModClose

text \<open>
  The fields of \<^verbatim>\<open>parser.Event\<close>. \<^verbatim>\<open>Port\<close> and \<^verbatim>\<open>DPDSeconds\<close> are Go
  \<^verbatim>\<open>int\<close>s, on which the collector does no arithmetic: they are integers here.
  \<^verbatim>\<open>RxBytes\<close> and \<^verbatim>\<open>TxBytes\<close> are \<^verbatim>\<open>uint64\<close>: they are natural numbers, which
  the parser below produces below \<open>2 ^ 64\<close>.
\<close>

record Event =
  Type :: EventType
  Timestamp :: time
  Server :: string
  Username :: string
  ClientIP :: string
  Port :: int
  VpnIP :: string
  SessionID :: string
  Reason :: string
  RxBytes :: nat
  TxBytes :: nat
  Raw :: string
  DPDSeconds :: int

section \<open>The collector's tables\<close>

record Session =
  s_Server :: string
  s_Username :: string
  s_ClientIP :: string
  s_Port :: int
  s_VpnIP :: string
  s_Country :: string
  s_SessionID :: string
  s_StartTime :: time

record DisconnectRecord =
  d_Server :: string
  d_Timestamp :: time

record WorkerContext =
  w_Username :: string
  w_ClientIP :: string
  w_Server :: string
  w_HadBye :: bool
  w_DPDWarning :: bool
  w_DPDSeconds :: int
  w_SecModClose :: bool
  w_LastUpdate :: time

subsection \<open>Metric vectors\<close>

text \<open>
  A Prometheus metric vector maps a list of label values to a child metric.
  \<^verbatim>\<open>WithLabelValues\<close> creates the child at zero when it is missing;
  \<^verbatim>\<open>DeleteLabelValues\<close> removes it when it is there. The value of a child is the
  exact sum of the amounts added to it; every amount the collector adds is a whole
  number.
\<close>

type_synonym vec = "string list \<rightharpoonup> int"

definition vec_value :: "vec \<Rightarrow> string list \<Rightarrow> int" where
  "vec_value m l = (case m l of None \<Rightarrow> 0 | Some v \<Rightarrow> v)"

definition vec_Add :: "vec \<Rightarrow> string list \<Rightarrow> int \<Rightarrow> vec" where
  "vec_Add m l n = m(l \<mapsto> vec_value m l + n)"

definition vec_Inc :: "vec \<Rightarrow> string list \<Rightarrow> vec" where
  "vec_Inc m l = vec_Add m l 1"

definition vec_Dec :: "vec \<Rightarrow> string list \<Rightarrow> vec" where
  "vec_Dec m l = vec_Add m l (- 1)"

definition vec_Set :: "vec \<Rightarrow> string list \<Rightarrow> int \<Rightarrow> vec" where
  "vec_Set m l v = m(l \<mapsto> v)"

definition vec_Delete :: "vec \<Rightarrow> string list \<Rightarrow> vec" where
  "vec_Delete m l = m(l := None)"

subsection \<open>Byte counts as floating-point numbers\<close>

text \<open>
  The conversion \<^verbatim>\<open>float64(n)\<close> of a \<^verbatim>\<open>uint64\<close>: the nearest number with a
  significand of 53 bits, the one with an even significand when two are equally near.
  The result is a whole number. \<open>bit_length\<close> is \<^verbatim>\<open>bits.Len64\<close>, the number of bits
  of \<open>n\<close>.
\<close>

fun bit_length :: "nat \<Rightarrow> nat" where
  "bit_length n = (if n = 0 then 0 else Suc (bit_length (n div 2)))"

declare bit_length.simps [simp del]

definition float64 :: "nat \<Rightarrow> int" where
  "float64 n =
     (let e = bit_length n - 53;
          q = n div 2 ^ e;
          r = n mod 2 ^ e
      in int ((if 2 ^ e < 2 * r \<or> (2 * r = 2 ^ e \<and> odd q) then q + 1 else q) * 2 ^ e))"

subsection \<open>The state: the collector and the metrics it writes\<close>

record Collector =
  sessions :: "string \<rightharpoonup> Session"
  lastDisconnects :: "string \<rightharpoonup> DisconnectRecord"
  workerContext :: "string \<rightharpoonup> WorkerContext"
  geoIP :: "(string \<Rightarrow> string \<times> string) option"
  ActiveSessions :: vec
  ConnectionsTotal :: vec
  DisconnectionsTotal :: vec
  ReceivedBytesTotal :: vec
  SentBytesTotal :: vec
  SessionDuration :: "string list \<Rightarrow> real list"
  LastEventTimestamp :: int
  ReconnectsTotal :: vec
  ProblematicSessionsTotal :: vec
  ConnectionsByCountry :: vec
  AuthFailedTotal :: vec
  SessionInfo :: vec

definition New :: Collector where
  "New = \<lparr> sessions = Map.empty, lastDisconnects = Map.empty, workerContext = Map.empty,
           geoIP = None,
           ActiveSessions = Map.empty, ConnectionsTotal = Map.empty,
           DisconnectionsTotal = Map.empty, ReceivedBytesTotal = Map.empty,
           SentBytesTotal = Map.empty, SessionDuration = (\<lambda>_. []),
           LastEventTimestamp = 0, ReconnectsTotal = Map.empty,
           ProblematicSessionsTotal = Map.empty, ConnectionsByCountry = Map.empty,
           AuthFailedTotal = Map.empty, SessionInfo = Map.empty \<rparr>"

definition SetGeoIPResolver :: "(string \<Rightarrow> string \<times> string) \<Rightarrow> Collector \<Rightarrow> Collector" where
  "SetGeoIPResolver resolver c = c\<lparr>geoIP := Some resolver\<rparr>"

subsection \<open>Keys\<close>

text \<open>The decimal text of an integer, as the verb \<^verbatim>\<open>%d\<close> prints it.\<close>

definition digit_char :: "nat \<Rightarrow> char" where
  "digit_char n = ''0123456789'' ! n"

fun digits_of :: "nat \<Rightarrow> string" where
  "digits_of n = (if n < 10 then [digit_char n] else digits_of (n div 10) @ [digit_char (n mod 10)])"

declare digits_of.simps [simp del]

definition fmt_d :: "int \<Rightarrow> string" where
  "fmt_d i = (if i < 0 then CHR ''-'' # digits_of (nat (- i)) else digits_of (nat i))"

definition userKey :: "string \<Rightarrow> string \<Rightarrow> string" where
  "userKey server username = server @ '':'' @ username"

definition sessionKey :: "string \<Rightarrow> string \<Rightarrow> string \<Rightarrow> int \<Rightarrow> string" where
  "sessionKey server username clientIP port =
     server @ '':'' @ username @ '':'' @ clientIP @ '':'' @ fmt_d port"

definition workerContextKey :: "string \<Rightarrow> string \<Rightarrow> string \<Rightarrow> string" where
  "workerContextKey server username clientIP = server @ '':'' @ username @ '':'' @ clientIP"

definition sidKey :: "string \<Rightarrow> string \<Rightarrow> string" where
  "sidKey server sessionID = ''sid:'' @ server @ '':'' @ sessionID"

section \<open>The handlers\<close>

definition enrichDisconnectReason ::
  "Collector \<Rightarrow> string \<Rightarrow> string \<Rightarrow> string \<Rightarrow> string \<Rightarrow> string" where
  "enrichDisconnectReason c originalReason ctxKey server username =
     (let ctx = workerContext c ctxKey;
          secModKey = workerContextKey server username [];
          secModCtx = workerContext c secModKey
      in if originalReason = ''unspecified error'' then
           if (case secModCtx of Some x \<Rightarrow> w_SecModClose x | None \<Rightarrow> False) then ''mobile sleep''
           else if (case ctx of Some x \<Rightarrow> w_SecModClose x | None \<Rightarrow> False) then ''mobile sleep''
           else if (case ctx of Some x \<Rightarrow> w_HadBye x | None \<Rightarrow> False) then ''client bye''
           else if (case ctx of Some x \<Rightarrow> w_DPDWarning x | None \<Rightarrow> False) then ''dpd issue''
           else originalReason
         else originalReason)"

definition handleLogin :: "Event \<Rightarrow> Collector \<Rightarrow> Collector" where
  "handleLogin event c =
     (let uKey = userKey (Server event) (Username event);
          sKey = sessionKey (Server event) (Username event) (ClientIP event) (Port event);
          c1 = (case lastDisconnects c uKey of
                  Some lastDisconnect \<Rightarrow>
                    if Sub (Timestamp event) (d_Timestamp lastDisconnect) < ReconnectWindow
                    then ReconnectsTotal_update
                           (\<lambda>m. vec_Inc m [Server event, Username event]) c
                    else c
                | None \<Rightarrow> c);
          country = (case geoIP c1 of
                       Some lookup \<Rightarrow> fst (lookup (ClientIP event))
                     | None \<Rightarrow> []);
          c2 = sessions_update (\<lambda>m. m(sKey \<mapsto>
                  \<lparr> s_Server = Server event, s_Username = Username event,
                    s_ClientIP = ClientIP event, s_Port = Port event, s_VpnIP = [],
                    s_Country = country, s_SessionID = [],
                    s_StartTime = Timestamp event \<rparr>)) c1;
          c3 = SessionInfo_update (\<lambda>m. vec_Set m
                  [Server event, Username event, [], country, []] (Unix (Timestamp event))) c2;
          c4 = ActiveSessions_update (\<lambda>m. vec_Inc m [Server event, Username event]) c3;
          c5 = ConnectionsTotal_update
                 (\<lambda>m. vec_Inc m [Server event, Username event, ClientIP event]) c4
      in case geoIP c5 of
           Some lookup \<Rightarrow>
             if country \<noteq> []
             then ConnectionsByCountry_update (\<lambda>m. vec_Inc m
                      [Server event, Username event, country, snd (lookup (ClientIP event))]) c5
             else c5
         | None \<Rightarrow> c5)"

definition handleDisconnect :: "Event \<Rightarrow> Collector \<Rightarrow> Collector" where
  "handleDisconnect event c =
     (let uKey = userKey (Server event) (Username event);
          key = sessionKey (Server event) (Username event) (ClientIP event) (Port event);
          ctxKey = workerContextKey (Server event) (Username event) (ClientIP event);
          found = sessions c key;
          sessionExists = (found \<noteq> None);
          duration = (case found of
                        Some session \<Rightarrow> Seconds (Sub (Timestamp event) (s_StartTime session))
                      | None \<Rightarrow> 0);
          c1 = (case found of
                  Some session \<Rightarrow>
                    (let ca = (if duration > 0
                               then SessionDuration_update (\<lambda>h. h
                                      ([Server event, Username event] :=
                                         h [Server event, Username event] @ [duration])) c
                               else c);
                         cb = SessionInfo_update (\<lambda>m. vec_Delete m
                                [Server event, Username event, s_VpnIP session, s_Country session, []]) ca
                     in sessions_update (\<lambda>m. m(key := None)) cb)
                | None \<Rightarrow> c);
          reason = enrichDisconnectReason c1 (Reason event) ctxKey (Server event) (Username event);
          isProblematicReason =
            (reason \<noteq> ''user disconnected'' \<and> reason \<noteq> ''client bye''
             \<and> reason \<noteq> ''mobile sleep'' \<and> reason \<noteq> []);
          c2 = (if sessionExists \<and> duration < ProblematicSessionThreshold \<and> duration > 0
                   \<and> isProblematicReason
                then ProblematicSessionsTotal_update
                       (\<lambda>m. vec_Inc m [Server event, Username event, reason]) c1
                else c1);
          c3 = lastDisconnects_update (\<lambda>m. m(uKey \<mapsto>
                  \<lparr> d_Server = Server event, d_Timestamp = Timestamp event \<rparr>)) c2;
          c4 = (if sessionExists
                then ActiveSessions_update (\<lambda>m. vec_Dec m [Server event, Username event]) c3
                else c3);
          c5 = DisconnectionsTotal_update
                 (\<lambda>m. vec_Inc m [Server event, Username event, reason]) c4;
          c6 = ReceivedBytesTotal_update
                 (\<lambda>m. vec_Add m [Server event, Username event] (float64 (RxBytes event))) c5;
          c7 = SentBytesTotal_update
                 (\<lambda>m. vec_Add m [Server event, Username event] (float64 (TxBytes event))) c6;
          c8 = workerContext_update (\<lambda>m. m(ctxKey := None)) c7;
          secModKey = workerContextKey (Server event) (Username event) []
      in workerContext_update (\<lambda>m. m(secModKey := None)) c8)"

definition handleSessionStart :: "Event \<Rightarrow> Collector \<Rightarrow> Collector" where
  "handleSessionStart event c =
     sessions_update (\<lambda>m. m(sidKey (Server event) (SessionID event) \<mapsto>
          \<lparr> s_Server = Server event, s_Username = Username event, s_ClientIP = [],
            s_Port = 0, s_VpnIP = [], s_Country = [], s_SessionID = SessionID event,
            s_StartTime = Timestamp event \<rparr>)) c"

text \<open>
  Go enumerates a map in an order it does not specify. Every loop over a map takes
  that order as its first argument: the keys in the order in which the runtime
  produces them. A key that is no longer in the map when the loop reaches it is not
  produced.
\<close>

definition map_order :: "('k \<rightharpoonup> 'v) \<Rightarrow> 'k list \<Rightarrow> bool" where
  "map_order m ks \<longleftrightarrow> distinct ks \<and> set ks = dom m"

fun handleVPNIP :: "string list \<Rightarrow> Event \<Rightarrow> Collector \<Rightarrow> Collector" where
  "handleVPNIP [] event c = c"
| "handleVPNIP (k # ks) event c =
     (case sessions c k of
        None \<Rightarrow> handleVPNIP ks event c
      | Some session \<Rightarrow>
          if s_Username session = Username event \<and> s_Server session = Server event
             \<and> s_VpnIP session = []
          then (let c1 = SessionInfo_update (\<lambda>m. vec_Delete m
                          [s_Server session, s_Username session, [], s_Country session, []]) c;
                    session' = session\<lparr>s_VpnIP := VpnIP event\<rparr>;
                    c2 = sessions_update (\<lambda>m. m(k \<mapsto> session')) c1
                in SessionInfo_update (\<lambda>m. vec_Set m
                        [s_Server session', s_Username session', s_VpnIP session',
                         s_Country session', []]
                        (Unix (s_StartTime session'))) c2)
          else handleVPNIP ks event c)"

definition handleAuthFailed :: "Event \<Rightarrow> Collector \<Rightarrow> Collector" where
  "handleAuthFailed event c =
     (let (country, countryCode) =
            (case geoIP c of
               Some lookup \<Rightarrow>
                 (let (co, cc) = lookup (ClientIP event)
                  in (if co = [] then ''Unknown'' else co, cc))
             | None \<Rightarrow> (''Unknown'', []))
      in AuthFailedTotal_update (\<lambda>m. vec_Inc m
             [Server event, Username event, ClientIP event, country, countryCode]) c)"

definition getOrCreateWorkerContext ::
  "string \<Rightarrow> Event \<Rightarrow> Collector \<Rightarrow> WorkerContext \<times> Collector" where
  "getOrCreateWorkerContext key event c =
     (case workerContext c key of
        Some ctx \<Rightarrow> (ctx, c)
      | None \<Rightarrow>
          (let ctx = \<lparr> w_Username = Username event, w_ClientIP = ClientIP event,
                       w_Server = Server event, w_HadBye = False, w_DPDWarning = False,
                       w_DPDSeconds = 0, w_SecModClose = False,
                       w_LastUpdate = Timestamp event \<rparr>
           in (ctx, workerContext_update (\<lambda>m. m(key \<mapsto> ctx)) c)))"

definition handleByePacket :: "Event \<Rightarrow> Collector \<Rightarrow> Collector" where
  "handleByePacket event c =
     (let key = workerContextKey (Server event) (Username event) (ClientIP event);
          (ctx, c1) = getOrCreateWorkerContext key event c
      in workerContext_update (\<lambda>m. m(key \<mapsto>
              ctx\<lparr>w_HadBye := True, w_LastUpdate := Timestamp event\<rparr>)) c1)"

definition handleDPDWarning :: "Event \<Rightarrow> Collector \<Rightarrow> Collector" where
  "handleDPDWarning event c =
     (let key = workerContextKey (Server event) (Username event) (ClientIP event);
          (ctx, c1) = getOrCreateWorkerContext key event c
      in workerContext_update (\<lambda>m. m(key \<mapsto>
              ctx\<lparr>w_DPDWarning := True, w_DPDSeconds := DPDSeconds event,
                  w_LastUpdate := Timestamp event\<rparr>)) c1)"

fun markSecModClose :: "string list \<Rightarrow> Event \<Rightarrow> Collector \<Rightarrow> Collector" where
  "markSecModClose [] event c = c"
| "markSecModClose (key # ks) event c =
     (case workerContext c key of
        None \<Rightarrow> markSecModClose ks event c
      | Some ctx \<Rightarrow>
          if w_Username ctx = Username event \<and> w_Server ctx = Server event
          then markSecModClose ks event
                 (workerContext_update (\<lambda>m. m(key \<mapsto>
                      ctx\<lparr>w_SecModClose := True, w_LastUpdate := Timestamp event\<rparr>)) c)
          else markSecModClose ks event c)"

definition handleSecModClose :: "string list \<Rightarrow> Event \<Rightarrow> Collector \<Rightarrow> Collector" where
  "handleSecModClose ks event c =
     (let c1 = markSecModClose ks event c;
          key = workerContextKey (Server event) (Username event) []
      in case workerContext c1 key of
           Some _ \<Rightarrow> c1
         | None \<Rightarrow>
             workerContext_update (\<lambda>m. m(key \<mapsto>
                  \<lparr> w_Username = Username event, w_ClientIP = [], w_Server = Server event,
                    w_HadBye = False, w_DPDWarning = False, w_DPDSeconds = 0,
                    w_SecModClose = True, w_LastUpdate = Timestamp event \<rparr>)) c1)"

text \<open>
  The dispatch of \<^verbatim>\<open>ProcessEvent\<close>. Its \<^verbatim>\<open>switch\<close> has no case for
  \<^verbatim>\<open>EventSessionInvalidate\<close> and none for \<^verbatim>\<open>EventUnknown\<close>. The first argument
  is the enumeration order of the one map the handler loops over, if it loops.
\<close>

definition ProcessEvent :: "string list \<Rightarrow> Event \<Rightarrow> Collector \<Rightarrow> Collector" where
  "ProcessEvent ks event c =
     (let c0 = LastEventTimestamp_update (\<lambda>_. Unix (Timestamp event)) c
      in case Type event of
           EventUserLogin \<Rightarrow> handleLogin event c0
         | EventUserDisconnect \<Rightarrow> handleDisconnect event c0
         | EventSessionStart \<Rightarrow> handleSessionStart event c0
         | EventVPNIPAssigned \<Rightarrow> handleVPNIP ks event c0
         | EventAuthFailed \<Rightarrow> handleAuthFailed event c0
         | EventByePacket \<Rightarrow> handleByePacket event c0
         | EventDPDWarning \<Rightarrow> handleDPDWarning event c0
         | EventSecModClose \<Rightarrow> handleSecModClose ks event c0
         | _ \<Rightarrow> c0)"

section \<open>The sweeper\<close>

definition is_sid_key :: "string \<Rightarrow> bool" where
  "is_sid_key key \<longleftrightarrow> length key > 4 \<and> take 4 key = ''sid:''"

fun sweepDisconnects :: "time \<Rightarrow> string list \<Rightarrow> Collector \<Rightarrow> Collector" where
  "sweepDisconnects now [] c = c"
| "sweepDisconnects now (key # ks) c =
     (case lastDisconnects c key of
        None \<Rightarrow> sweepDisconnects now ks c
      | Some record \<Rightarrow>
          if Sub now (d_Timestamp record) > ReconnectWindow * 2
          then sweepDisconnects now ks (lastDisconnects_update (\<lambda>m. m(key := None)) c)
          else sweepDisconnects now ks c)"

fun sweepWorkerContexts :: "time \<Rightarrow> string list \<Rightarrow> Collector \<Rightarrow> Collector" where
  "sweepWorkerContexts now [] c = c"
| "sweepWorkerContexts now (key # ks) c =
     (case workerContext c key of
        None \<Rightarrow> sweepWorkerContexts now ks c
      | Some ctx \<Rightarrow>
          if Sub now (w_LastUpdate ctx) > ReconnectWindow * 2
          then sweepWorkerContexts now ks (workerContext_update (\<lambda>m. m(key := None)) c)
          else sweepWorkerContexts now ks c)"

fun sweepSessions :: "time \<Rightarrow> string list \<Rightarrow> Collector \<Rightarrow> Collector" where
  "sweepSessions now [] c = c"
| "sweepSessions now (key # ks) c =
     (case sessions c key of
        None \<Rightarrow> sweepSessions now ks c
      | Some session \<Rightarrow>
          if is_sid_key key then sweepSessions now ks c
          else if Sub now (s_StartTime session) > MaxSessionAge
          then (let c1 = SessionInfo_update (\<lambda>m. vec_Delete m
                          [s_Server session, s_Username session, s_VpnIP session,
                           s_Country session, []]) c;
                    c2 = ActiveSessions_update (\<lambda>m. vec_Dec m
                          [s_Server session, s_Username session]) c1
                in sweepSessions now ks (sessions_update (\<lambda>m. m(key := None)) c2))
          else sweepSessions now ks c)"

text \<open>
  \<^verbatim>\<open>CleanupOldDisconnects\<close> reads the clock once (\<open>now\<close>) and makes three passes,
  each over one map in its own enumeration order.
\<close>

definition CleanupOldDisconnects ::
  "time \<Rightarrow> string list \<Rightarrow> string list \<Rightarrow> string list \<Rightarrow> Collector \<Rightarrow> Collector" where
  "CleanupOldDisconnects now ksd ksw kss c =
     sweepSessions now kss (sweepWorkerContexts now ksw (sweepDisconnects now ksd c))"

definition LookupCountry :: "Collector \<Rightarrow> string \<Rightarrow> string" where
  "LookupCountry c ip = (case geoIP c of None \<Rightarrow> [] | Some lookup \<Rightarrow> fst (lookup ip))"

section \<open>The enrichment rule, as the specification words it\<close>

definition flag_set :: "(WorkerContext \<Rightarrow> bool) \<Rightarrow> WorkerContext option \<Rightarrow> bool" where
  "flag_set f x = (case x of Some ctx \<Rightarrow> f ctx | None \<Rightarrow> False)"

text \<open>
  The pause flag is looked for on both entries, the one of \<open>(server, username, clientIP)\<close>
  and the one without the address; the bye and the dead-peer flags on the first.
\<close>

definition enriched_reason_spec ::
  "(string \<rightharpoonup> WorkerContext) \<Rightarrow> string \<Rightarrow> string \<Rightarrow> string \<Rightarrow> string \<Rightarrow> string" where
  "enriched_reason_spec wc server username clientIP raw =
     (let specific = wc (workerContextKey server username clientIP);
          ipless = wc (workerContextKey server username [])
      in if raw = ''unspecified error'' then
           if flag_set w_SecModClose specific \<or> flag_set w_SecModClose ipless then ''mobile sleep''
           else if flag_set w_HadBye specific then ''client bye''
           else if flag_set w_DPDWarning specific then ''dpd issue''
           else raw
         else raw)"

section \<open>The scan for a session without a VPN address\<close>



section \<open>What the sweeper evicts\<close>

text \<open>The tests of the three loops of \<^verbatim>\<open>CleanupOldDisconnects\<close>, one per table.\<close>

definition stale_disconnect :: "time \<Rightarrow> Collector \<Rightarrow> string \<Rightarrow> bool" where
  "stale_disconnect now c k =
     (case lastDisconnects c k of
        None \<Rightarrow> False
      | Some record \<Rightarrow> Sub now (d_Timestamp record) > ReconnectWindow * 2)"

definition stale_context :: "time \<Rightarrow> Collector \<Rightarrow> string \<Rightarrow> bool" where
  "stale_context now c k =
     (case workerContext c k of
        None \<Rightarrow> False
      | Some ctx \<Rightarrow> Sub now (w_LastUpdate ctx) > ReconnectWindow * 2)"

definition stale_session :: "time \<Rightarrow> Collector \<Rightarrow> string \<Rightarrow> bool" where
  "stale_session now c k =
     (case sessions c k of
        None \<Rightarrow> False
      | Some session \<Rightarrow> \<not> is_sid_key k \<and> Sub now (s_StartTime session) > MaxSessionAge)"

text \<open>The labels of the active-session gauge that the sweeper lowers for an entry.\<close>

definition session_label :: "Collector \<Rightarrow> string \<Rightarrow> string list option" where
  "session_label c k =
     (case sessions c k of
        None \<Rightarrow> None
      | Some session \<Rightarrow> Some [s_Server session, s_Username session])"

section \<open>Concrete events and states\<close>

text \<open>The zero value of \<^verbatim>\<open>parser.Event\<close>, from which the examples are written.\<close>

definition zeroEvent :: Event where
  "zeroEvent = \<lparr> Type = EventUnknown, Timestamp = 0, Server = [], Username = [], ClientIP = [],
                  Port = 0, VpnIP = [], SessionID = [], Reason = [], RxBytes = 0, TxBytes = 0,
                  Raw = [], DPDSeconds = 0 \<rparr>"

text \<open>A user of partition \<open>ocserv\<close> at one address, on two ports.\<close>

definition login_a :: Event where
  "login_a = zeroEvent\<lparr>Type := EventUserLogin, Timestamp := 0, Server := ''ocserv'',
                Username := ''u'', ClientIP := ''1.2.3.4'', Port := 1\<rparr>"

definition login_b :: Event where
  "login_b = login_a\<lparr>Timestamp := 1 * Second, Port := 2\<rparr>"

definition disconnect_a :: Event where
  "disconnect_a = zeroEvent\<lparr>Type := EventUserDisconnect, Timestamp := 45 * Second,
                     Server := ''ocserv'', Username := ''u'', ClientIP := ''1.2.3.4'', Port := 1,
                     Reason := ''unspecified error'', RxBytes := 100, TxBytes := 200\<rparr>"

definition disconnect_b :: Event where
  "disconnect_b = disconnect_a\<lparr>Timestamp := 50 * Second, Port := 2\<rparr>"

definition bye_a :: Event where
  "bye_a = zeroEvent\<lparr>Type := EventByePacket, Timestamp := 40 * Second, Server := ''ocserv'',
              Username := ''u'', ClientIP := ''1.2.3.4''\<rparr>"

definition dpd_a :: Event where
  "dpd_a = zeroEvent\<lparr>Type := EventDPDWarning, Timestamp := 40 * Second, Server := ''ocserv'',
              Username := ''u'', ClientIP := ''1.2.3.4'', DPDSeconds := 137\<rparr>"

definition pause_a :: Event where
  "pause_a = zeroEvent\<lparr>Type := EventSecModClose, Timestamp := 41 * Second, Server := ''ocserv'',
                Username := ''u'', SessionID := ''u7N/JC''\<rparr>"

text \<open>A session whose worker said bye and which the session manager then paused.\<close>

definition paused_after_bye :: Collector where
  "paused_after_bye =
     handleSecModClose [''ocserv:u:1.2.3.4''] pause_a (handleByePacket bye_a (handleLogin login_a New))"


text \<open>Two sessions of one user, the first of them already disconnected.\<close>

definition second_of_two :: Collector where
  "second_of_two = handleDisconnect disconnect_a (handleLogin login_b (handleLogin login_a New))"

text \<open>The session manager opens and later invalidates a session of the same user.\<close>

definition start_a :: Event where
  "start_a = zeroEvent\<lparr>Type := EventSessionStart, Timestamp := 0, Server := ''ocserv'',
                Username := ''u'', SessionID := ''yKsy7b''\<rparr>"

definition invalidate_a :: Event where
  "invalidate_a = start_a\<lparr>Type := EventSessionInvalidate\<rparr>"

text \<open>
  Two users whose keys \<open>server:username\<close> are the same text: \<open>c\<close> on server \<open>a:b\<close> and
  \<open>b:c\<close> on server \<open>a\<close>.
\<close>

definition colliding_disconnect :: Event where
  "colliding_disconnect = zeroEvent\<lparr>Type := EventUserDisconnect, Timestamp := 0,
       Server := ''a:b'', Username := ''c'', ClientIP := ''1.2.3.4'', Port := 1,
       Reason := ''user disconnected''\<rparr>"

definition colliding_login :: Event where
  "colliding_login = zeroEvent\<lparr>Type := EventUserLogin, Timestamp := 1 * Second,
       Server := ''a'', Username := ''b:c'', ClientIP := ''5.6.7.8'', Port := 2\<rparr>"

text \<open>
  The session manager and the main process both announce the user; the worker then reports
  the VPN address.
\<close>

definition vpnip_a :: Event where
  "vpnip_a = zeroEvent\<lparr>Type := EventVPNIPAssigned, Timestamp := 2 * Second, Server := ''ocserv'',
                Username := ''u'', VpnIP := ''10.0.0.5''\<rparr>"

definition announced_twice :: Collector where
  "announced_twice = handleLogin login_a (handleSessionStart start_a New)"

text \<open>A login on a server that is named \<open>sid\<close>.\<close>

definition sid_login :: Event where
  "sid_login = login_a\<lparr>Server := ''sid''\<rparr>"

text \<open>
  A session identifier with colons on server \<open>x\<close>, and a disconnect on a server whose
  name begins with \<open>sid:\<close>.
\<close>

definition start_x :: Event where
  "start_x = zeroEvent\<lparr>Type := EventSessionStart, Timestamp := 0, Server := ''x'',
                Username := ''u'', SessionID := ''u:1.2.3.4:1''\<rparr>"

definition disconnect_sidx :: Event where
  "disconnect_sidx = zeroEvent\<lparr>Type := EventUserDisconnect, Timestamp := 1 * Second,
       Server := ''sid:x'', Username := ''u'', ClientIP := ''1.2.3.4'', Port := 1,
       Reason := ''user disconnected''\<rparr>"

section \<open>Runs of the collector\<close>

text \<open>
  What happens to a collector over time: events are processed and, in between, the sweeper
  runs. Each carries the enumeration orders of the maps it loops over.
\<close>

datatype action =
    Process "string list" Event
  | Cleanup time "string list" "string list" "string list"

fun step :: "Collector \<Rightarrow> action \<Rightarrow> Collector" where
  "step c (Process ks event) = ProcessEvent ks event c"
| "step c (Cleanup now ksd ksw kss) = CleanupOldDisconnects now ksd ksw kss c"

definition run :: "action list \<Rightarrow> Collector \<Rightarrow> Collector" where
  "run acts c = foldl step c acts"

text \<open>The disconnects among the actions, as the user keys under which they are recorded.\<close>

fun disconnect_key :: "action \<Rightarrow> string option" where
  "disconnect_key (Process ks event) =
     (if Type event = EventUserDisconnect
      then Some (userKey (Server event) (Username event)) else None)"
| "disconnect_key (Cleanup now ksd ksw kss) = None"

text \<open>
  An action that leaves in place a disconnect record of time \<open>t\<close> under the key \<open>k\<close>: it
  is not a disconnect recorded under \<open>k\<close>, and not a sweep at a time later than \<open>t\<close> by
  more than twice the reconnect window.
\<close>

fun keeps_record :: "string \<Rightarrow> time \<Rightarrow> action \<Rightarrow> bool" where
  "keeps_record k t (Process ks event) =
     (Type event \<noteq> EventUserDisconnect \<or> userKey (Server event) (Username event) \<noteq> k)"
| "keeps_record k t (Cleanup now ksd ksw kss) = (Sub now t \<le> ReconnectWindow * 2)"

text \<open>
  A server name that cannot make the key of a login or a disconnect begin with
  \<open>sid:\<close>: it is not \<open>sid\<close> and does not begin with \<open>sid:\<close> itself.
\<close>

definition sid_free :: "string \<Rightarrow> bool" where
  "sid_free server \<longleftrightarrow> server \<noteq> ''sid'' \<and> take 4 server \<noteq> ''sid:''"

text \<open>An action that processes no event of a server whose name is not of that kind.\<close>

fun partition_sid_free :: "action \<Rightarrow> bool" where
  "partition_sid_free (Process ks event) = sid_free (Server event)"
| "partition_sid_free (Cleanup now ksd ksw kss) = True"

text \<open>
  An entry of the session manager under the key \<open>k\<close>: a session as \<^verbatim>\<open>handleSessionStart\<close>
  writes it, with a session identifier, no client address, port or country, and stored
  under the key of its own server and session identifier.
\<close>

definition secondary_entry :: "string \<Rightarrow> Session \<Rightarrow> bool" where
  "secondary_entry k s \<longleftrightarrow>
     sidKey (s_Server s) (s_SessionID s) = k \<and> s_ClientIP s = [] \<and> s_Port s = 0
     \<and> s_Country s = []"

definition secondary_at :: "Collector \<Rightarrow> string \<Rightarrow> bool" where
  "secondary_at c k = (case sessions c k of None \<Rightarrow> False | Some s \<Rightarrow> secondary_entry k s)"

text \<open>A SessionStart event that writes the key \<open>k\<close>.\<close>

fun restarts :: "string \<Rightarrow> action \<Rightarrow> bool" where
  "restarts k (Process ks event) =
     (Type event = EventSessionStart \<and> sidKey (Server event) (SessionID event) = k)"
| "restarts k (Cleanup now ksd ksw kss) = False"

section \<open>The classifier of log lines\<close>

subsection \<open>Regular expressions\<close>

text \<open>
  The patterns of the parser use four constructs of Go's \<^verbatim>\<open>regexp\<close> package: literal
  text, a greedy repetition of a character class (\<^verbatim>\<open>[^:]+\<close>), such a repetition as a
  capturing group (\<^verbatim>\<open>([^:]+)\<close>), and an optional group (\<^verbatim>\<open>(?:...)?\<close>). The package
  returns the match a backtracking matcher finds first: the leftmost one, a repetition
  taking as much as it can and giving back one character at a time, an optional group
  tried before it is skipped.

  A pattern is written as a matcher in that style. It takes the matcher of the rest of
  the pattern and the input, and returns the captured groups with the input left over,
  or \<open>None\<close>. A character is a byte; the classes here exclude or include ASCII characters
  only, so matching bytes finds the same groups as matching code points.
\<close>

type_synonym submatch = "(string list \<times> string) option"
type_synonym matcher = "string \<Rightarrow> submatch"

definition finish :: matcher where
  "finish s = Some ([], s)"

definition lit :: "string \<Rightarrow> matcher \<Rightarrow> matcher" where
  "lit l k s = (if take (length l) s = l then k (drop (length l) s) else None)"

text \<open>The attempts of a greedy repetition: \<open>n\<close> characters, then one fewer, down to \<open>m\<close>.\<close>

primrec try_down :: "(nat \<Rightarrow> submatch) \<Rightarrow> nat \<Rightarrow> nat \<Rightarrow> submatch" where
  "try_down f m 0 = (if m = 0 then f 0 else None)"
| "try_down f m (Suc n) =
     (if Suc n < m then None
      else (case f (Suc n) of Some r \<Rightarrow> Some r | None \<Rightarrow> try_down f m n))"

definition rep :: "(char \<Rightarrow> bool) \<Rightarrow> nat \<Rightarrow> matcher \<Rightarrow> matcher" where
  "rep cls m k s = try_down (\<lambda>n. k (drop n s)) m (length (takeWhile cls s))"

definition cap :: "(char \<Rightarrow> bool) \<Rightarrow> nat \<Rightarrow> matcher \<Rightarrow> matcher" where
  "cap cls m k s =
     try_down (\<lambda>n. case k (drop n s) of
                      None \<Rightarrow> None
                    | Some (groups, rest) \<Rightarrow> Some (take n s # groups, rest))
       m (length (takeWhile cls s))"

text \<open>
  An optional group with \<open>n\<close> capturing groups inside: when the pattern cannot match with
  it, it is skipped and its groups are empty.
\<close>

definition opt :: "nat \<Rightarrow> (matcher \<Rightarrow> matcher) \<Rightarrow> matcher \<Rightarrow> matcher" where
  "opt n inner k s =
     (case inner k s of
        Some r \<Rightarrow> Some r
      | None \<Rightarrow> (case k s of
                   None \<Rightarrow> None
                 | Some (groups, rest) \<Rightarrow> Some (replicate n [] @ groups, rest)))"

definition but :: "char \<Rightarrow> char \<Rightarrow> bool" where
  "but x c \<longleftrightarrow> c \<noteq> x"

definition digit :: "char \<Rightarrow> bool" where
  "digit c \<longleftrightarrow> c \<in> set ''0123456789''"

definition digit_or_dot :: "char \<Rightarrow> bool" where
  "digit_or_dot c \<longleftrightarrow> c \<in> set ''0123456789.''"

text \<open>
  \<^verbatim>\<open>FindStringSubmatch\<close>: the match at the leftmost position where the pattern matches.
  Element 0 of the result is the text of the whole match, element \<open>i\<close> the text of the
  \<open>i\<close>-th group.
\<close>

fun FindStringSubmatch :: "(matcher \<Rightarrow> matcher) \<Rightarrow> string \<Rightarrow> string list option" where
  "FindStringSubmatch re [] =
     (case re finish [] of
        Some (groups, rest) \<Rightarrow> Some ([] # groups)
      | None \<Rightarrow> None)"
| "FindStringSubmatch re (c # s) =
     (case re finish (c # s) of
        Some (groups, rest) \<Rightarrow> Some (take (length (c # s) - length rest) (c # s) # groups)
      | None \<Rightarrow> FindStringSubmatch re s)"

subsection \<open>The patterns\<close>

definition reLogin :: "matcher \<Rightarrow> matcher" where
  "reLogin = lit ''main['' \<circ> cap (but CHR '']'') 1 \<circ> lit '']:'' \<circ> cap (but CHR '':'') 1
             \<circ> lit '':'' \<circ> cap digit 1 \<circ> lit '' user logged in''"

definition reDisconnect :: "matcher \<Rightarrow> matcher" where
  "reDisconnect = lit ''main['' \<circ> cap (but CHR '']'') 1 \<circ> lit '']:'' \<circ> cap (but CHR '':'') 1
                  \<circ> lit '':'' \<circ> cap digit 1 \<circ> lit '' user disconnected (reason: ''
                  \<circ> cap (but CHR '','') 1 \<circ> lit '', rx: '' \<circ> cap digit 1
                  \<circ> lit '', tx: '' \<circ> cap digit 1 \<circ> lit '')''"

definition reSessionStart :: "matcher \<Rightarrow> matcher" where
  "reSessionStart = lit (''sec-mod: initiating session for user '' @ [CHR 0x27])
                    \<circ> cap (but (CHR 0x27)) 1 \<circ> lit (CHR 0x27 # '' (session: '')
                    \<circ> cap (but CHR '')'') 1 \<circ> lit '')''"

definition reSessionInvalidate :: "matcher \<Rightarrow> matcher" where
  "reSessionInvalidate = lit (''sec-mod: invalidating session of user '' @ [CHR 0x27])
                         \<circ> cap (but (CHR 0x27)) 1 \<circ> lit (CHR 0x27 # '' (session: '')
                         \<circ> cap (but CHR '')'') 1 \<circ> lit '')''"

definition reVPNIP :: "matcher \<Rightarrow> matcher" where
  "reVPNIP = lit ''worker['' \<circ> cap (but CHR '']'') 1 \<circ> lit '']: '' \<circ> rep (but CHR '' '') 1
             \<circ> lit '' sending IPv4 '' \<circ> cap digit_or_dot 1"

definition reAuthFailed :: "matcher \<Rightarrow> matcher" where
  "reAuthFailed = lit ''main'' \<circ> opt 1 (lit ''['' \<circ> cap (but CHR '']'') 0 \<circ> lit '']'')
                  \<circ> lit '':'' \<circ> cap (but CHR '':'') 1 \<circ> lit '':'' \<circ> cap digit 1
                  \<circ> lit '' failed authentication attempt''"

definition reCookieAuthFailed :: "matcher \<Rightarrow> matcher" where
  "reCookieAuthFailed = lit ''worker'' \<circ> opt 1 (lit ''['' \<circ> cap (but CHR '']'') 0 \<circ> lit '']'')
                        \<circ> lit '': '' \<circ> cap (but CHR '' '') 1
                        \<circ> lit '' failed cookie authentication attempt''"

definition reByePacket :: "matcher \<Rightarrow> matcher" where
  "reByePacket = lit ''worker['' \<circ> cap (but CHR '']'') 1 \<circ> lit '']: '' \<circ> cap (but CHR '' '') 1
                 \<circ> lit '' received BYE packet''"

definition reDPDWarning :: "matcher \<Rightarrow> matcher" where
  "reDPDWarning = lit ''worker['' \<circ> cap (but CHR '']'') 1 \<circ> lit '']: '' \<circ> cap (but CHR '' '') 1
                  \<circ> lit '' have not received TCP DPD for long ('' \<circ> cap digit 1
                  \<circ> lit '' secs)''"

definition reSecModClose :: "matcher \<Rightarrow> matcher" where
  "reSecModClose = lit ''sec-mod: temporarily closing session for '' \<circ> cap (but CHR '' '') 1
                   \<circ> lit '' (session: '' \<circ> cap (but CHR '')'') 1 \<circ> lit '')''"

subsection \<open>Numbers\<close>

text \<open>
  \<^verbatim>\<open>strconv.ParseUint(s, 10, 64)\<close>, \<^verbatim>\<open>strconv.ParseInt(s, 10, 0)\<close> and
  \<^verbatim>\<open>strconv.Atoi\<close> of Go's standard library, with an \<^verbatim>\<open>int\<close> of 64 bits. Each returns
  a value and an error; on a range error the value is the largest of the type.
\<close>

datatype NumError = ErrSyntax | ErrRange

definition intSize :: nat where
  "intSize = 64"

definition digit_value :: "char \<Rightarrow> nat" where
  "digit_value c = of_char c - 48"

definition maxUint64 :: nat where
  "maxUint64 = 2 ^ 64 - 1"

fun parse_uint_loop :: "nat \<Rightarrow> string \<Rightarrow> nat \<times> NumError option" where
  "parse_uint_loop n [] = (n, None)"
| "parse_uint_loop n (c # cs) =
     (if \<not> digit c then (0, Some ErrSyntax)
      else if n \<ge> maxUint64 div 10 + 1 then (maxUint64, Some ErrRange)
      else (let n' = n * 10;
                n1 = (n' + digit_value c) mod 2 ^ 64
            in if n1 < n' \<or> n1 > maxUint64 then (maxUint64, Some ErrRange)
               else parse_uint_loop n1 cs))"

definition ParseUint :: "string \<Rightarrow> nat \<times> NumError option" where
  "ParseUint s = (if s = [] then (0, Some ErrSyntax) else parse_uint_loop 0 s)"

definition ParseInt :: "string \<Rightarrow> int \<times> NumError option" where
  "ParseInt s =
     (if s = [] then (0, Some ErrSyntax)
      else let neg = (hd s = CHR ''-'');
               s' = (if hd s = CHR ''+'' \<or> hd s = CHR ''-'' then tl s else s);
               (un, err) = ParseUint s';
               cutoff = 2 ^ (intSize - 1)
           in if err = Some ErrSyntax then (0, err)
              else if \<not> neg \<and> un \<ge> cutoff then (int cutoff - 1, Some ErrRange)
              else if neg \<and> un > cutoff then (- int cutoff, Some ErrRange)
              else (if neg then - int un else int un, None))"

fun atoi_loop :: "int \<Rightarrow> string \<Rightarrow> int option" where
  "atoi_loop n [] = Some n"
| "atoi_loop n (c # cs) = (if \<not> digit c then None else atoi_loop (n * 10 + int (digit_value c)) cs)"

definition Atoi :: "string \<Rightarrow> int \<times> NumError option" where
  "Atoi s =
     (if 0 < length s \<and> length s < 19 then
        (let s' = (if hd s = CHR ''-'' \<or> hd s = CHR ''+'' then tl s else s)
         in if s' = [] then (0, Some ErrSyntax)
            else case atoi_loop 0 s' of
                   None \<Rightarrow> (0, Some ErrSyntax)
                 | Some n \<Rightarrow> (if hd s = CHR ''-'' then - n else n, None))
      else ParseInt s)"

subsection \<open>Parse\<close>

definition Parse :: "time \<Rightarrow> string \<Rightarrow> string \<Rightarrow> Event" where
  "Parse ts message server =
     (let event = \<lparr> Type = EventUnknown, Timestamp = ts, Server = server, Username = [],
                    ClientIP = [], Port = 0, VpnIP = [], SessionID = [], Reason = [],
                    RxBytes = 0, TxBytes = 0, Raw = message, DPDSeconds = 0 \<rparr>
      in (case FindStringSubmatch reLogin message of
            Some matches \<Rightarrow>
              event\<lparr>Type := EventUserLogin, Username := matches ! 1, ClientIP := matches ! 2,
                    Port := fst (Atoi (matches ! 3))\<rparr>
          | None \<Rightarrow>
         (case FindStringSubmatch reDisconnect message of
            Some matches \<Rightarrow>
              event\<lparr>Type := EventUserDisconnect, Username := matches ! 1,
                    ClientIP := matches ! 2, Port := fst (Atoi (matches ! 3)),
                    Reason := matches ! 4, RxBytes := fst (ParseUint (matches ! 5)),
                    TxBytes := fst (ParseUint (matches ! 6))\<rparr>
          | None \<Rightarrow>
         (case FindStringSubmatch reSessionStart message of
            Some matches \<Rightarrow>
              event\<lparr>Type := EventSessionStart, Username := matches ! 1,
                    SessionID := matches ! 2\<rparr>
          | None \<Rightarrow>
         (case FindStringSubmatch reSessionInvalidate message of
            Some matches \<Rightarrow>
              event\<lparr>Type := EventSessionInvalidate, Username := matches ! 1,
                    SessionID := matches ! 2\<rparr>
          | None \<Rightarrow>
         (case FindStringSubmatch reVPNIP message of
            Some matches \<Rightarrow>
              event\<lparr>Type := EventVPNIPAssigned, Username := matches ! 1,
                    VpnIP := matches ! 2\<rparr>
          | None \<Rightarrow>
         (case FindStringSubmatch reAuthFailed message of
            Some matches \<Rightarrow>
              event\<lparr>Type := EventAuthFailed, Username := matches ! 1, ClientIP := matches ! 2,
                    Port := fst (Atoi (matches ! 3))\<rparr>
          | None \<Rightarrow>
         (case FindStringSubmatch reCookieAuthFailed message of
            Some matches \<Rightarrow>
              event\<lparr>Type := EventAuthFailed, Username := matches ! 1,
                    ClientIP := matches ! 2\<rparr>
          | None \<Rightarrow>
         (case FindStringSubmatch reByePacket message of
            Some matches \<Rightarrow>
              event\<lparr>Type := EventByePacket, Username := matches ! 1,
                    ClientIP := matches ! 2\<rparr>
          | None \<Rightarrow>
         (case FindStringSubmatch reDPDWarning message of
            Some matches \<Rightarrow>
              event\<lparr>Type := EventDPDWarning, Username := matches ! 1, ClientIP := matches ! 2,
                    DPDSeconds := fst (Atoi (matches ! 3))\<rparr>
          | None \<Rightarrow>
         (case FindStringSubmatch reSecModClose message of
            Some matches \<Rightarrow>
              event\<lparr>Type := EventSecModClose, Username := matches ! 1,
                    SessionID := matches ! 2\<rparr>
          | None \<Rightarrow> event)))))))))))"

definition ProcessLogLine :: "string list \<Rightarrow> time \<Rightarrow> string \<Rightarrow> string \<Rightarrow> Collector \<Rightarrow> Collector" where
  "ProcessLogLine ks ts message server c =
     (let event = Parse ts message server
      in if Type event \<noteq> EventUnknown then ProcessEvent ks event c else c)"

subsection \<open>What a numeric field says\<close>

text \<open>
  The number that a run of decimal digits writes, and the texts that are such runs: the
  ones \<^verbatim>\<open>\d+\<close> matches.
\<close>

definition decimal :: "string \<Rightarrow> nat" where
  "decimal s = foldl (\<lambda>n c. n * 10 + digit_value c) 0 s"

definition digits :: "string \<Rightarrow> bool" where
  "digits s \<longleftrightarrow> s \<noteq> [] \<and> list_all digit s"

definition maxInt :: int where
  "maxInt = 2 ^ (intSize - 1) - 1"

text \<open>The patterns that \<^verbatim>\<open>Parse\<close> tries, in its order.\<close>

definition patterns :: "(matcher \<Rightarrow> matcher) list" where
  "patterns = [reLogin, reDisconnect, reSessionStart, reSessionInvalidate, reVPNIP,
               reAuthFailed, reCookieAuthFailed, reByePacket, reDPDWarning, reSecModClose]"

definition matches_none :: "(matcher \<Rightarrow> matcher) list \<Rightarrow> string \<Rightarrow> bool" where
  "matches_none res message = list_all (\<lambda>re. FindStringSubmatch re message = None) res"

section \<open>Facts about the model\<close>

subsection \<open>Durations\<close>

lemma Sub_less_iff:
  assumes "minDuration < b" "b \<le> maxDuration"
  shows "Sub t u < b \<longleftrightarrow> t - u < b"
  using assms by (auto simp: Sub_def Let_def)

lemma Sub_greater_iff:
  assumes "minDuration \<le> b" "b < maxDuration"
  shows "b < Sub t u \<longleftrightarrow> b < t - u"
  using assms by (auto simp: Sub_def Let_def)





lemma within_ReconnectWindow:
  "Sub t u < ReconnectWindow \<longleftrightarrow> t - u < 5 * Minute"
  using Sub_less_iff [of "5 * Minute" t u]
  by (simp add: ReconnectWindow_def minDuration_def maxDuration_def Minute_def Second_def)

lemma beyond_MaxSessionAge:
  "MaxSessionAge < Sub t u \<longleftrightarrow> 24 * Hour < t - u"
  using Sub_greater_iff [of "24 * Hour" t u]
  by (simp add: MaxSessionAge_def minDuration_def maxDuration_def Hour_def Minute_def Second_def)

subsection \<open>Metric vectors\<close>

lemma vec_value_Add: "vec_value (vec_Add m l n) l' = (if l' = l then vec_value m l + n else vec_value m l')"
  by (simp add: vec_Add_def vec_value_def)

lemma vec_value_Inc: "vec_value (vec_Inc m l) l' = (if l' = l then vec_value m l + 1 else vec_value m l')"
  by (simp add: vec_Inc_def vec_value_Add)

lemma vec_value_Dec: "vec_value (vec_Dec m l) l' = (if l' = l then vec_value m l - 1 else vec_value m l')"
  by (simp add: vec_Dec_def vec_value_Add)

lemma vec_value_empty [simp]: "vec_value (\<lambda>x. None) l = 0"
  by (simp add: vec_value_def)

lemma dom_vec_Delete: "dom (vec_Delete m l) = dom m - {l}"
  by (auto simp: vec_Delete_def)

subsection \<open>The enrichment reads the worker contexts only\<close>

lemma enrich_update [simp]:
  "enrichDisconnectReason (sessions_update f c) r k s u = enrichDisconnectReason c r k s u"
  "enrichDisconnectReason (SessionInfo_update g c) r k s u = enrichDisconnectReason c r k s u"
  "enrichDisconnectReason (SessionDuration_update h c) r k s u = enrichDisconnectReason c r k s u"
  "enrichDisconnectReason (LastEventTimestamp_update i c) r k s u = enrichDisconnectReason c r k s u"
  by (simp_all add: enrichDisconnectReason_def)

lemma enrich_refines_spec:
  "enrichDisconnectReason c raw (workerContextKey p u ip) p u
     = enriched_reason_spec (workerContext c) p u ip raw"
  by (simp add: enrichDisconnectReason_def enriched_reason_spec_def flag_set_def Let_def
      split: option.splits)

subsection \<open>What a disconnect leaves in each table and metric\<close>

lemma handleDisconnect_sessions:
  "sessions (handleDisconnect event c)
     = (sessions c)(sessionKey (Server event) (Username event) (ClientIP event) (Port event) := None)"
  by (auto simp: handleDisconnect_def Let_def split: option.splits)

lemma handleDisconnect_SessionInfo:
  "SessionInfo (handleDisconnect event c)
     = (case sessions c (sessionKey (Server event) (Username event) (ClientIP event) (Port event)) of
          Some session \<Rightarrow> vec_Delete (SessionInfo c)
             [Server event, Username event, s_VpnIP session, s_Country session, []]
        | None \<Rightarrow> SessionInfo c)"
  by (simp add: handleDisconnect_def Let_def split: option.splits)

lemma handleDisconnect_ActiveSessions:
  "ActiveSessions (handleDisconnect event c)
     = (case sessions c (sessionKey (Server event) (Username event) (ClientIP event) (Port event)) of
          Some session \<Rightarrow> vec_Dec (ActiveSessions c) [Server event, Username event]
        | None \<Rightarrow> ActiveSessions c)"
  by (simp add: handleDisconnect_def Let_def split: option.splits)

lemma handleDisconnect_lastDisconnects:
  "lastDisconnects (handleDisconnect event c)
     = (lastDisconnects c)(userKey (Server event) (Username event) \<mapsto>
          \<lparr> d_Server = Server event, d_Timestamp = Timestamp event \<rparr>)"
  by (simp add: handleDisconnect_def Let_def split: option.splits)

lemma handleDisconnect_DisconnectionsTotal:
  "DisconnectionsTotal (handleDisconnect event c)
     = vec_Inc (DisconnectionsTotal c)
         [Server event, Username event,
          enrichDisconnectReason c (Reason event)
            (workerContextKey (Server event) (Username event) (ClientIP event))
            (Server event) (Username event)]"
  by (simp add: handleDisconnect_def Let_def split: option.splits)

lemma bit_length_le: "n < 2 ^ k \<Longrightarrow> bit_length n \<le> k"
proof (induction k arbitrary: n)
  case 0
  then show ?case by (simp add: bit_length.simps)
next
  case (Suc k)
  have "n div 2 < 2 ^ k" using Suc.prems by simp
  then have "bit_length (n div 2) \<le> k" by (rule Suc.IH)
  then show ?case by (subst bit_length.simps) simp
qed

lemma bit_length_power: "bit_length (2 ^ k) = Suc k"
proof (induction k)
  case 0
  show ?case by (simp add: bit_length.simps)
next
  case (Suc k)
  then show ?case by (subst bit_length.simps) simp
qed

lemma float64_exact: "n \<le> 2 ^ 53 \<Longrightarrow> float64 n = int n"
proof (cases "n = 2 ^ 53")
  case True
  have "bit_length n = 54" unfolding True bit_length_power by simp
  then show ?thesis by (simp add: float64_def Let_def True)
next
  case False
  assume "n \<le> 2 ^ 53"
  with False have "n < 2 ^ 53" by simp
  then have "bit_length n \<le> 53" by (rule bit_length_le)
  then show ?thesis by (simp add: float64_def Let_def)
qed

lemma float64_near:
  "2 * \<bar>float64 n - int n\<bar> \<le> 2 ^ (bit_length n - 53)"
proof -
  define e where "e = bit_length n - 53"
  define q where "q = n div 2 ^ e"
  define r where "r = n mod 2 ^ e"
  have "n = q * 2 ^ e + r" unfolding q_def r_def by (rule div_mult_mod_eq [symmetric])
  then have "int n = int (q * 2 ^ e + r)" by (rule arg_cong)
  then have n: "int n = int q * 2 ^ e + int r" by simp
  have "r < 2 ^ e" by (simp add: r_def)
  then have "int r < int (2 ^ e)" by (simp only: of_nat_less_iff)
  then have r: "int r < 2 ^ e" by simp
  show ?thesis
  proof (cases "2 ^ e < 2 * r \<or> (2 * r = 2 ^ e \<and> odd q)")
    case True
    then have f: "float64 n = (int q + 1) * 2 ^ e"
      by (simp add: float64_def Let_def e_def [symmetric] q_def [symmetric] r_def [symmetric]
          algebra_simps)
    have "2 ^ e \<le> 2 * r" using True by auto
    then have "int (2 ^ e) \<le> int (2 * r)" by (simp only: of_nat_le_iff)
    then have h: "2 ^ e \<le> 2 * int r" by simp
    have "float64 n - int n = 2 ^ e - int r" unfolding f n by (simp add: algebra_simps)
    then show ?thesis unfolding e_def [symmetric] using h r by simp
  next
    case False
    then have f: "float64 n = int q * 2 ^ e"
      by (simp add: float64_def Let_def e_def [symmetric] q_def [symmetric] r_def [symmetric])
    have "2 * r \<le> 2 ^ e" using False by auto
    then have "int (2 * r) \<le> int (2 ^ e)" by (simp only: of_nat_le_iff)
    then have h: "2 * int r \<le> 2 ^ e" by simp
    have "float64 n - int n = - int r" unfolding f n by simp
    then show ?thesis unfolding e_def [symmetric] using h by simp
  qed
qed

lemma float64_within:
  assumes "n < 2 ^ 64"
  shows "\<bar>float64 n - int n\<bar> \<le> 1024"
proof -
  have "bit_length n \<le> 64" using assms by (rule bit_length_le)
  then have "bit_length n - 53 \<le> 11" by simp
  then have "(2::int) ^ (bit_length n - 53) \<le> 2 ^ 11" by (rule power_increasing) simp
  with float64_near [of n] show ?thesis by simp
qed

lemma handleDisconnect_bytes:
  "ReceivedBytesTotal (handleDisconnect event c)
     = vec_Add (ReceivedBytesTotal c) [Server event, Username event]
         (float64 (RxBytes event))"
  "SentBytesTotal (handleDisconnect event c)
     = vec_Add (SentBytesTotal c) [Server event, Username event]
         (float64 (TxBytes event))"
  by (simp_all add: handleDisconnect_def Let_def split: option.splits)

lemma handleDisconnect_workerContext:
  "workerContext (handleDisconnect event c)
     = (workerContext c)
         (workerContextKey (Server event) (Username event) (ClientIP event) := None,
          workerContextKey (Server event) (Username event) [] := None)"
  by (simp add: handleDisconnect_def Let_def split: option.splits)

lemma handleDisconnect_ReconnectsTotal:
  "ReconnectsTotal (handleDisconnect event c) = ReconnectsTotal c"
  by (simp add: handleDisconnect_def Let_def split: option.splits)


subsection \<open>What a login leaves in each table and metric\<close>

lemma handleLogin_sessions:
  "sessions (handleLogin event c)
     = (sessions c)(sessionKey (Server event) (Username event) (ClientIP event) (Port event) \<mapsto>
          \<lparr> s_Server = Server event, s_Username = Username event, s_ClientIP = ClientIP event,
            s_Port = Port event, s_VpnIP = [], s_Country = LookupCountry c (ClientIP event),
            s_SessionID = [], s_StartTime = Timestamp event \<rparr>)"
  by (simp add: handleLogin_def LookupCountry_def Let_def split: option.splits)

lemma handleLogin_SessionInfo:
  "SessionInfo (handleLogin event c)
     = vec_Set (SessionInfo c)
         [Server event, Username event, [], LookupCountry c (ClientIP event), []]
         (Unix (Timestamp event))"
  by (simp add: handleLogin_def LookupCountry_def Let_def split: option.splits)

lemma handleLogin_ActiveSessions:
  "ActiveSessions (handleLogin event c) = vec_Inc (ActiveSessions c) [Server event, Username event]"
  by (simp add: handleLogin_def Let_def split: option.splits)

lemma handleLogin_ConnectionsTotal:
  "ConnectionsTotal (handleLogin event c)
     = vec_Inc (ConnectionsTotal c) [Server event, Username event, ClientIP event]"
  by (simp add: handleLogin_def Let_def split: option.splits)

lemma handleLogin_ReconnectsTotal:
  "ReconnectsTotal (handleLogin event c)
     = (case lastDisconnects c (userKey (Server event) (Username event)) of
          Some lastDisconnect \<Rightarrow>
            if Timestamp event - d_Timestamp lastDisconnect < 5 * Minute
            then vec_Inc (ReconnectsTotal c) [Server event, Username event]
            else ReconnectsTotal c
        | None \<Rightarrow> ReconnectsTotal c)"
  by (simp add: handleLogin_def Let_def within_ReconnectWindow split: option.splits)

lemma handleLogin_unchanged:
  "lastDisconnects (handleLogin event c) = lastDisconnects c"
  "workerContext (handleLogin event c) = workerContext c"
  "geoIP (handleLogin event c) = geoIP c"
  by (simp_all add: handleLogin_def Let_def split: option.splits)

lemma handleLogin_bytes:
  "ReceivedBytesTotal (handleLogin event c) = ReceivedBytesTotal c"
  "SentBytesTotal (handleLogin event c) = SentBytesTotal c"
  by (simp_all add: handleLogin_def Let_def split: option.splits)

lemma handleDisconnect_geoIP: "geoIP (handleDisconnect event c) = geoIP c"
  by (simp add: handleDisconnect_def Let_def split: option.splits)

lemmas example_events = zeroEvent_def login_a_def login_b_def disconnect_a_def disconnect_b_def
  bye_a_def dpd_a_def pause_a_def start_a_def invalidate_a_def colliding_disconnect_def
  colliding_login_def vpnip_a_def sid_login_def start_x_def disconnect_sidx_def

lemmas key_text = sessionKey_def userKey_def workerContextKey_def sidKey_def fmt_d_def
  digits_of.simps digit_char_def

subsection \<open>The dispatch\<close>

lemma ProcessEvent_cases:
  "Type event = EventUserLogin \<Longrightarrow> ProcessEvent ks event c
     = handleLogin event (LastEventTimestamp_update (\<lambda>_. Unix (Timestamp event)) c)"
  "Type event = EventUserDisconnect \<Longrightarrow> ProcessEvent ks event c
     = handleDisconnect event (LastEventTimestamp_update (\<lambda>_. Unix (Timestamp event)) c)"
  "Type event = EventSessionStart \<Longrightarrow> ProcessEvent ks event c
     = handleSessionStart event (LastEventTimestamp_update (\<lambda>_. Unix (Timestamp event)) c)"
  "Type event = EventVPNIPAssigned \<Longrightarrow> ProcessEvent ks event c
     = handleVPNIP ks event (LastEventTimestamp_update (\<lambda>_. Unix (Timestamp event)) c)"
  "Type event = EventAuthFailed \<Longrightarrow> ProcessEvent ks event c
     = handleAuthFailed event (LastEventTimestamp_update (\<lambda>_. Unix (Timestamp event)) c)"
  "Type event = EventByePacket \<Longrightarrow> ProcessEvent ks event c
     = handleByePacket event (LastEventTimestamp_update (\<lambda>_. Unix (Timestamp event)) c)"
  "Type event = EventDPDWarning \<Longrightarrow> ProcessEvent ks event c
     = handleDPDWarning event (LastEventTimestamp_update (\<lambda>_. Unix (Timestamp event)) c)"
  "Type event = EventSecModClose \<Longrightarrow> ProcessEvent ks event c
     = handleSecModClose ks event (LastEventTimestamp_update (\<lambda>_. Unix (Timestamp event)) c)"
  "Type event = EventSessionInvalidate \<Longrightarrow> ProcessEvent ks event c
     = LastEventTimestamp_update (\<lambda>_. Unix (Timestamp event)) c"
  "Type event = EventUnknown \<Longrightarrow> ProcessEvent ks event c
     = LastEventTimestamp_update (\<lambda>_. Unix (Timestamp event)) c"
  by (simp_all add: ProcessEvent_def)

subsection \<open>Which handler touches which table\<close>

lemma handleSessionStart_sessions:
  "sessions (handleSessionStart event c)
     = (sessions c)(sidKey (Server event) (SessionID event) \<mapsto>
          \<lparr> s_Server = Server event, s_Username = Username event, s_ClientIP = [],
            s_Port = 0, s_VpnIP = [], s_Country = [], s_SessionID = SessionID event,
            s_StartTime = Timestamp event \<rparr>)"
  by (simp add: handleSessionStart_def)

lemma handleVPNIP_dom: "dom (sessions (handleVPNIP ks event c)) = dom (sessions c)"
  by (induction ks) (auto simp: Let_def split: option.splits)

lemma handleVPNIP_unchanged:
  "lastDisconnects (handleVPNIP ks event c) = lastDisconnects c"
  "workerContext (handleVPNIP ks event c) = workerContext c"
  by (induction ks) (auto simp: Let_def split: option.splits)

lemma markSecModClose_unchanged:
  "sessions (markSecModClose ks event c) = sessions c"
  "lastDisconnects (markSecModClose ks event c) = lastDisconnects c"
  by (induction ks arbitrary: c) (auto split: option.splits)

lemma others_sessions:
  "sessions (handleAuthFailed event c) = sessions c"
  "sessions (handleByePacket event c) = sessions c"
  "sessions (handleDPDWarning event c) = sessions c"
  "sessions (handleSecModClose ks event c) = sessions c"
  by (simp_all add: handleAuthFailed_def handleByePacket_def handleDPDWarning_def
      handleSecModClose_def getOrCreateWorkerContext_def markSecModClose_unchanged Let_def
      split: option.splits prod.splits)

lemma others_lastDisconnects:
  "lastDisconnects (handleSessionStart event c) = lastDisconnects c"
  "lastDisconnects (handleAuthFailed event c) = lastDisconnects c"
  "lastDisconnects (handleByePacket event c) = lastDisconnects c"
  "lastDisconnects (handleDPDWarning event c) = lastDisconnects c"
  "lastDisconnects (handleSecModClose ks event c) = lastDisconnects c"
  by (simp_all add: handleSessionStart_def handleAuthFailed_def handleByePacket_def
      handleDPDWarning_def handleSecModClose_def getOrCreateWorkerContext_def
      markSecModClose_unchanged Let_def split: option.splits prod.splits)

lemma sweepDisconnects_unchanged:
  "sessions (sweepDisconnects now ks c) = sessions c"
  "workerContext (sweepDisconnects now ks c) = workerContext c"
  "ActiveSessions (sweepDisconnects now ks c) = ActiveSessions c"
  "SessionInfo (sweepDisconnects now ks c) = SessionInfo c"
  by (induction ks arbitrary: c) (auto split: option.splits)

lemma sweepWorkerContexts_unchanged:
  "sessions (sweepWorkerContexts now ks c) = sessions c"
  "lastDisconnects (sweepWorkerContexts now ks c) = lastDisconnects c"
  "ActiveSessions (sweepWorkerContexts now ks c) = ActiveSessions c"
  "SessionInfo (sweepWorkerContexts now ks c) = SessionInfo c"
  by (induction ks arbitrary: c) (auto split: option.splits)

lemma sweepSessions_unchanged:
  "lastDisconnects (sweepSessions now ks c) = lastDisconnects c"
  "workerContext (sweepSessions now ks c) = workerContext c"
  by (induction ks arbitrary: c) (auto simp: Let_def split: option.splits)

lemma sweepDisconnects_result:
  "lastDisconnects (sweepDisconnects now ks c) k
     = (if k \<in> set ks \<and> stale_disconnect now c k then None else lastDisconnects c k)"
  by (induction ks arbitrary: c) (auto simp: stale_disconnect_def split: option.splits)

lemma sweepWorkerContexts_result:
  "workerContext (sweepWorkerContexts now ks c) k
     = (if k \<in> set ks \<and> stale_context now c k then None else workerContext c k)"
  by (induction ks arbitrary: c) (auto simp: stale_context_def split: option.splits)

lemma sweepSessions_result:
  "sessions (sweepSessions now ks c) k
     = (if k \<in> set ks \<and> stale_session now c k then None else sessions c k)"
  by (induction ks arbitrary: c) (auto simp: stale_session_def Let_def split: option.splits)

lemma sweepDisconnects_only_removes:
  "lastDisconnects (sweepDisconnects now ks c) k = Some r \<Longrightarrow> lastDisconnects c k = Some r"
proof (induction ks arbitrary: c)
  case Nil
  then show ?case by simp
next
  case (Cons a ks)
  show ?case
  proof (cases "lastDisconnects c a")
    case None
    with Cons show ?thesis by simp
  next
    case (Some x)
    show ?thesis
    proof (cases "ReconnectWindow * 2 < Sub now (d_Timestamp x)")
      case True
      with Some Cons.prems
      have "lastDisconnects (sweepDisconnects now ks
              (lastDisconnects_update (\<lambda>m. m(a := None)) c)) k = Some r"
        by simp
      from Cons.IH [OF this] show ?thesis
        by (simp split: if_splits)
    next
      case False
      with Some Cons show ?thesis by simp
    qed
  qed
qed

lemma ProcessEvent_lastDisconnects:
  "lastDisconnects (ProcessEvent ks event c)
     = (if Type event = EventUserDisconnect
        then (lastDisconnects c)(userKey (Server event) (Username event) \<mapsto>
               \<lparr> d_Server = Server event, d_Timestamp = Timestamp event \<rparr>)
        else lastDisconnects c)"
  by (cases "Type event")
     (simp_all add: ProcessEvent_cases handleLogin_unchanged handleDisconnect_lastDisconnects
        handleVPNIP_unchanged others_lastDisconnects)

lemma step_lastDisconnects:
  "lastDisconnects (step c a) k \<noteq> None \<Longrightarrow>
   lastDisconnects c k \<noteq> None \<or> disconnect_key a = Some k"
proof (cases a)
  case (Process ks event)
  assume "lastDisconnects (step c a) k \<noteq> None"
  with Process show ?thesis
    by (auto simp: ProcessEvent_lastDisconnects split: if_splits)
next
  case (Cleanup now ksd ksw kss)
  assume "lastDisconnects (step c a) k \<noteq> None"
  with Cleanup show ?thesis
    by (auto simp: CleanupOldDisconnects_def sweepSessions_unchanged
        sweepWorkerContexts_unchanged dest: sweepDisconnects_only_removes)
qed

lemma run_lastDisconnects:
  "lastDisconnects (run acts c) k \<noteq> None \<Longrightarrow>
   lastDisconnects c k \<noteq> None \<or> Some k \<in> disconnect_key ` set acts"
proof (induction acts arbitrary: c)
  case Nil
  then show ?case by (simp add: run_def)
next
  case (Cons a acts)
  from Cons.prems have "lastDisconnects (run acts (step c a)) k \<noteq> None"
    by (simp add: run_def)
  then have "lastDisconnects (step c a) k \<noteq> None \<or> Some k \<in> disconnect_key ` set acts"
    by (rule Cons.IH)
  then show ?case
    using step_lastDisconnects [of c a k] by auto
qed

subsection \<open>The reconnect counter and the disconnect table over a run\<close>

lemma handleVPNIP_ReconnectsTotal:
  "ReconnectsTotal (handleVPNIP ks event c) = ReconnectsTotal c"
  by (induction ks) (auto simp: Let_def split: option.splits)

lemma markSecModClose_ReconnectsTotal:
  "ReconnectsTotal (markSecModClose ks event c) = ReconnectsTotal c"
  by (induction ks arbitrary: c) (auto split: option.splits)

lemma others_ReconnectsTotal:
  "ReconnectsTotal (handleSessionStart event c) = ReconnectsTotal c"
  "ReconnectsTotal (handleAuthFailed event c) = ReconnectsTotal c"
  "ReconnectsTotal (handleByePacket event c) = ReconnectsTotal c"
  "ReconnectsTotal (handleDPDWarning event c) = ReconnectsTotal c"
  "ReconnectsTotal (handleSecModClose ks event c) = ReconnectsTotal c"
  by (simp_all add: handleSessionStart_def handleAuthFailed_def handleByePacket_def
      handleDPDWarning_def handleSecModClose_def getOrCreateWorkerContext_def
      markSecModClose_ReconnectsTotal Let_def split: option.splits prod.splits)

lemma ProcessEvent_ReconnectsTotal:
  "Type event \<noteq> EventUserLogin \<Longrightarrow> ReconnectsTotal (ProcessEvent ks event c) = ReconnectsTotal c"
  by (cases "Type event")
     (simp_all add: ProcessEvent_cases handleDisconnect_ReconnectsTotal
        handleVPNIP_ReconnectsTotal others_ReconnectsTotal)

lemma sweep_ReconnectsTotal:
  "ReconnectsTotal (sweepDisconnects now ks c) = ReconnectsTotal c"
  "ReconnectsTotal (sweepWorkerContexts now ks c) = ReconnectsTotal c"
  "ReconnectsTotal (sweepSessions now ks c) = ReconnectsTotal c"
  by (induction ks arbitrary: c) (auto simp: Let_def split: option.splits)

lemma Cleanup_ReconnectsTotal:
  "ReconnectsTotal (CleanupOldDisconnects now ksd ksw kss c) = ReconnectsTotal c"
  by (simp add: CleanupOldDisconnects_def sweep_ReconnectsTotal)

lemma Cleanup_lastDisconnects:
  "lastDisconnects (CleanupOldDisconnects now ksd ksw kss c) k
     = (if k \<in> set ksd \<and> stale_disconnect now c k then None else lastDisconnects c k)"
  by (simp add: CleanupOldDisconnects_def sweepSessions_unchanged sweepWorkerContexts_unchanged
      sweepDisconnects_result)

lemma step_keeps_record:
  "lastDisconnects c k = Some r \<Longrightarrow> keeps_record k (d_Timestamp r) a \<Longrightarrow>
   lastDisconnects (step c a) k = Some r"
  by (cases a) (auto simp: ProcessEvent_lastDisconnects Cleanup_lastDisconnects stale_disconnect_def)

lemma run_keeps_record:
  "lastDisconnects c k = Some r \<Longrightarrow> list_all (keeps_record k (d_Timestamp r)) acts \<Longrightarrow>
   lastDisconnects (run acts c) k = Some r"
proof (induction acts arbitrary: c)
  case Nil
  then show ?case by (simp add: run_def)
next
  case (Cons a acts)
  from Cons.prems have "lastDisconnects (step c a) k = Some r"
    by (simp add: step_keeps_record)
  moreover from Cons.prems have "list_all (keeps_record k (d_Timestamp r)) acts" by simp
  ultimately have "lastDisconnects (run acts (step c a)) k = Some r" by (rule Cons.IH)
  then show ?case by (simp add: run_def)
qed


section \<open>The enriched disconnect reason\<close>

text \<open>
  Claim C1. For a disconnect whose raw reason is \<open>unspecified error\<close>, the reason the
  collector reports is read off the worker contexts of \<open>(server, username, clientIP)\<close> and of
  \<open>(server, username, "")\<close> in a fixed order: a pause flag on either entry gives
  \<open>mobile sleep\<close>; otherwise the bye flag gives \<open>client bye\<close>; otherwise the dead-peer
  flag gives \<open>dpd issue\<close>; otherwise, and for every other raw reason, the raw reason
  stays. It is the label under which the disconnect is counted. With the pause and the
  bye flag both set the result is \<open>mobile sleep\<close>.
\<close>

theorem enriched_reason_priority:
  "enrichDisconnectReason c raw (workerContextKey server username clientIP) server username
     = enriched_reason_spec (workerContext c) server username clientIP raw
   \<and> DisconnectionsTotal (handleDisconnect event c)
     = vec_Inc (DisconnectionsTotal c)
         [Server event, Username event,
          enriched_reason_spec (workerContext c) (Server event) (Username event)
            (ClientIP event) (Reason event)]
   \<and> (raw \<noteq> ''unspecified error'' \<longrightarrow>
        enrichDisconnectReason c raw (workerContextKey server username clientIP) server username
          = raw)
   \<and> (workerContext c (workerContextKey server username clientIP) = Some ctx
        \<and> w_SecModClose ctx \<and> w_HadBye ctx \<longrightarrow>
        enrichDisconnectReason c ''unspecified error''
          (workerContextKey server username clientIP) server username = ''mobile sleep'')"
proof (intro conjI impI)
  show "enrichDisconnectReason c raw (workerContextKey server username clientIP) server username
          = enriched_reason_spec (workerContext c) server username clientIP raw"
    by (rule enrich_refines_spec)
  show "DisconnectionsTotal (handleDisconnect event c)
          = vec_Inc (DisconnectionsTotal c)
              [Server event, Username event,
               enriched_reason_spec (workerContext c) (Server event) (Username event)
                 (ClientIP event) (Reason event)]"
    by (simp only: handleDisconnect_DisconnectionsTotal enrich_refines_spec)
next
  assume "raw \<noteq> ''unspecified error''"
  then show "enrichDisconnectReason c raw (workerContextKey server username clientIP)
               server username = raw"
    by (simp add: enrichDisconnectReason_def)
next
  assume "workerContext c (workerContextKey server username clientIP) = Some ctx
            \<and> w_SecModClose ctx \<and> w_HadBye ctx"
  then show "enrichDisconnectReason c ''unspecified error''
               (workerContextKey server username clientIP) server username = ''mobile sleep''"
    by (simp add: enrichDisconnectReason_def Let_def)
qed

theorem enriched_reason_priority_witness:
  "''user disconnected'' \<noteq> ''unspecified error''
   \<and> enrichDisconnectReason paused_after_bye ''user disconnected''
        (workerContextKey ''ocserv'' ''u'' ''1.2.3.4'') ''ocserv'' ''u'' = ''user disconnected''
   \<and> workerContext paused_after_bye (workerContextKey ''ocserv'' ''u'' ''1.2.3.4'')
        = Some \<lparr> w_Username = ''u'', w_ClientIP = ''1.2.3.4'', w_Server = ''ocserv'',
                 w_HadBye = True, w_DPDWarning = False, w_DPDSeconds = 0,
                 w_SecModClose = True, w_LastUpdate = 41 * Second \<rparr>
   \<and> enrichDisconnectReason paused_after_bye ''unspecified error''
        (workerContextKey ''ocserv'' ''u'' ''1.2.3.4'') ''ocserv'' ''u'' = ''mobile sleep''"
proof -
  have ctx: "workerContext paused_after_bye (workerContextKey ''ocserv'' ''u'' ''1.2.3.4'')
        = Some \<lparr> w_Username = ''u'', w_ClientIP = ''1.2.3.4'', w_Server = ''ocserv'',
                 w_HadBye = True, w_DPDWarning = False, w_DPDSeconds = 0,
                 w_SecModClose = True, w_LastUpdate = 41 * Second \<rparr>"
    by (simp add: paused_after_bye_def handleSecModClose_def handleByePacket_def
        getOrCreateWorkerContext_def handleLogin_unchanged New_def example_events key_text
        Let_def)
  note t = enriched_reason_priority [of paused_after_bye "''user disconnected''" "''ocserv''"
        "''u''" "''1.2.3.4''" disconnect_a
        "\<lparr> w_Username = ''u'', w_ClientIP = ''1.2.3.4'', w_Server = ''ocserv'',
           w_HadBye = True, w_DPDWarning = False, w_DPDSeconds = 0,
           w_SecModClose = True, w_LastUpdate = 41 * Second \<rparr>"]
  have neq: "''user disconnected'' \<noteq> ''unspecified error''"
    by simp
  have kept: "enrichDisconnectReason paused_after_bye ''user disconnected''
        (workerContextKey ''ocserv'' ''u'' ''1.2.3.4'') ''ocserv'' ''u'' = ''user disconnected''"
    using t neq by blast
  have sleep: "enrichDisconnectReason paused_after_bye ''unspecified error''
        (workerContextKey ''ocserv'' ''u'' ''1.2.3.4'') ''ocserv'' ''u'' = ''mobile sleep''"
    using t ctx by simp
  show ?thesis
    using neq kept ctx sleep by blast
qed

section \<open>Problematic sessions\<close>



section \<open>Reconnects\<close>

text \<open>
  Claim C3, as the code has it. A login increments the reconnect counter of
  \<open>(server, username)\<close> exactly when the disconnect table has a record under the key
  \<open>server:username\<close> and the login's timestamp minus the recorded one is less than five
  minutes. So a login on a collector that started with an empty disconnect table, before
  which no disconnect was processed whose key \<open>server:username\<close> is the login's, increments
  nothing; and a login right after a disconnect of the same server and username, less than
  five minutes later, increments the counter by exactly one. The key is the two names joined
  by a colon: it identifies the pair only among names without a colon.

  When other events and sweeps come between the disconnect and the login, the pair is
  counted by the same rule as long as the record of that disconnect stays: nothing in
  between is a disconnect recorded under the same key, and no sweep in between runs at a
  clock time more than ten minutes after the disconnect's timestamp. Then the login
  increments the counter by exactly one when it is less than five minutes after the
  disconnect, and not otherwise. A sweep that runs at such a time in between evicts the
  record, and the login increments nothing.
\<close>

theorem reconnect_counted:
  assumes "Type l = EventUserLogin"
  shows "ReconnectsTotal (ProcessEvent ks l c)
           = (if (\<exists>r. lastDisconnects c (userKey (Server l) (Username l)) = Some r
                      \<and> Timestamp l - d_Timestamp r < 5 * Minute)
              then vec_Inc (ReconnectsTotal c) [Server l, Username l]
              else ReconnectsTotal c)
         \<and> (lastDisconnects c = Map.empty
              \<and> Some (userKey (Server l) (Username l)) \<notin> disconnect_key ` set acts \<longrightarrow>
            ReconnectsTotal (ProcessEvent ks l (run acts c)) = ReconnectsTotal (run acts c))
         \<and> (Type d = EventUserDisconnect \<and> Server d = Server l \<and> Username d = Username l
              \<and> Timestamp l - Timestamp d < 5 * Minute \<longrightarrow>
            ReconnectsTotal (ProcessEvent ks l (ProcessEvent ks' d c))
              = vec_Inc (ReconnectsTotal c) [Server l, Username l]
            \<and> vec_value (ReconnectsTotal (ProcessEvent ks l (ProcessEvent ks' d c)))
                [Server l, Username l]
              = vec_value (ReconnectsTotal c) [Server l, Username l] + 1)
         \<and> (Type d = EventUserDisconnect \<and> Server d = Server l \<and> Username d = Username l
              \<and> list_all (keeps_record (userKey (Server d) (Username d)) (Timestamp d)) between
            \<longrightarrow>
            ReconnectsTotal (ProcessEvent ks l (run between (ProcessEvent ks' d c)))
              = (if Timestamp l - Timestamp d < 5 * Minute
                 then vec_Inc (ReconnectsTotal (run between (ProcessEvent ks' d c)))
                        [Server l, Username l]
                 else ReconnectsTotal (run between (ProcessEvent ks' d c))))
         \<and> (Type d = EventUserDisconnect \<and> Server d = Server l \<and> Username d = Username l
              \<and> userKey (Server d) (Username d) \<in> set ksd
              \<and> ReconnectWindow * 2 < Sub now (Timestamp d) \<longrightarrow>
            ReconnectsTotal
              (ProcessEvent ks l (CleanupOldDisconnects now ksd ksw kss (ProcessEvent ks' d c)))
              = ReconnectsTotal c)"
proof -
  have login: "ReconnectsTotal (ProcessEvent ks l c')
      = (case lastDisconnects c' (userKey (Server l) (Username l)) of
           Some r \<Rightarrow> if Timestamp l - d_Timestamp r < 5 * Minute
                     then vec_Inc (ReconnectsTotal c') [Server l, Username l]
                     else ReconnectsTotal c'
         | None \<Rightarrow> ReconnectsTotal c')" for c'
    using assms by (simp add: ProcessEvent_cases handleLogin_ReconnectsTotal split: option.splits)
  have first: "ReconnectsTotal (ProcessEvent ks l c)
           = (if (\<exists>r. lastDisconnects c (userKey (Server l) (Username l)) = Some r
                      \<and> Timestamp l - d_Timestamp r < 5 * Minute)
              then vec_Inc (ReconnectsTotal c) [Server l, Username l]
              else ReconnectsTotal c)"
    by (cases "lastDisconnects c (userKey (Server l) (Username l))") (simp_all add: login)
  have second: "ReconnectsTotal (ProcessEvent ks l (run acts c)) = ReconnectsTotal (run acts c)"
    if "lastDisconnects c = Map.empty"
      and "Some (userKey (Server l) (Username l)) \<notin> disconnect_key ` set acts"
  proof -
    have "lastDisconnects (run acts c) (userKey (Server l) (Username l)) = None"
      using run_lastDisconnects [of acts c "userKey (Server l) (Username l)"] that by auto
    then show ?thesis by (simp add: login)
  qed
  have unchanged: "ReconnectsTotal (ProcessEvent ks' d c) = ReconnectsTotal c"
    if "Type d = EventUserDisconnect"
    using that by (simp add: ProcessEvent_ReconnectsTotal)
  have recorded: "lastDisconnects (ProcessEvent ks' d c) (userKey (Server l) (Username l))
      = Some \<lparr> d_Server = Server d, d_Timestamp = Timestamp d \<rparr>"
    if "Type d = EventUserDisconnect" "Server d = Server l" "Username d = Username l"
    using that by (simp add: ProcessEvent_lastDisconnects)
  have third: "ReconnectsTotal (ProcessEvent ks l (ProcessEvent ks' d c))
              = vec_Inc (ReconnectsTotal c) [Server l, Username l]"
    if "Type d = EventUserDisconnect" "Server d = Server l" "Username d = Username l"
      "Timestamp l - Timestamp d < 5 * Minute"
    using that by (simp add: login recorded unchanged)
  have fourth: "ReconnectsTotal (ProcessEvent ks l (run between (ProcessEvent ks' d c)))
              = (if Timestamp l - Timestamp d < 5 * Minute
                 then vec_Inc (ReconnectsTotal (run between (ProcessEvent ks' d c)))
                        [Server l, Username l]
                 else ReconnectsTotal (run between (ProcessEvent ks' d c)))"
    if "Type d = EventUserDisconnect" "Server d = Server l" "Username d = Username l"
      "list_all (keeps_record (userKey (Server d) (Username d)) (Timestamp d)) between"
  proof -
    let ?r = "\<lparr> d_Server = Server d, d_Timestamp = Timestamp d \<rparr>"
    have "list_all (keeps_record (userKey (Server l) (Username l)) (d_Timestamp ?r)) between"
      using that by simp
    with recorded [OF that(1-3)]
    have "lastDisconnects (run between (ProcessEvent ks' d c)) (userKey (Server l) (Username l))
            = Some ?r"
      by (rule run_keeps_record)
    then show ?thesis by (simp add: login)
  qed
  have fifth: "ReconnectsTotal
              (ProcessEvent ks l (CleanupOldDisconnects now ksd ksw kss (ProcessEvent ks' d c)))
              = ReconnectsTotal c"
    if "Type d = EventUserDisconnect" "Server d = Server l" "Username d = Username l"
      "userKey (Server d) (Username d) \<in> set ksd" "ReconnectWindow * 2 < Sub now (Timestamp d)"
  proof -
    have "lastDisconnects (CleanupOldDisconnects now ksd ksw kss (ProcessEvent ks' d c))
            (userKey (Server l) (Username l)) = None"
      using that by (simp add: Cleanup_lastDisconnects stale_disconnect_def recorded)
    then show ?thesis
      using that(1) by (simp add: login Cleanup_ReconnectsTotal unchanged)
  qed
  have second': "lastDisconnects c = Map.empty
              \<and> Some (userKey (Server l) (Username l)) \<notin> disconnect_key ` set acts \<longrightarrow>
            ReconnectsTotal (ProcessEvent ks l (run acts c)) = ReconnectsTotal (run acts c)"
    using second by blast
  have third': "Type d = EventUserDisconnect \<and> Server d = Server l \<and> Username d = Username l
              \<and> Timestamp l - Timestamp d < 5 * Minute \<longrightarrow>
            ReconnectsTotal (ProcessEvent ks l (ProcessEvent ks' d c))
              = vec_Inc (ReconnectsTotal c) [Server l, Username l]
            \<and> vec_value (ReconnectsTotal (ProcessEvent ks l (ProcessEvent ks' d c)))
                [Server l, Username l]
              = vec_value (ReconnectsTotal c) [Server l, Username l] + 1"
    using third by (simp add: vec_value_Inc)
  have fourth': "Type d = EventUserDisconnect \<and> Server d = Server l \<and> Username d = Username l
              \<and> list_all (keeps_record (userKey (Server d) (Username d)) (Timestamp d)) between
            \<longrightarrow>
            ReconnectsTotal (ProcessEvent ks l (run between (ProcessEvent ks' d c)))
              = (if Timestamp l - Timestamp d < 5 * Minute
                 then vec_Inc (ReconnectsTotal (run between (ProcessEvent ks' d c)))
                        [Server l, Username l]
                 else ReconnectsTotal (run between (ProcessEvent ks' d c)))"
    using fourth by blast
  have fifth': "Type d = EventUserDisconnect \<and> Server d = Server l \<and> Username d = Username l
              \<and> userKey (Server d) (Username d) \<in> set ksd
              \<and> ReconnectWindow * 2 < Sub now (Timestamp d) \<longrightarrow>
            ReconnectsTotal
              (ProcessEvent ks l (CleanupOldDisconnects now ksd ksw kss (ProcessEvent ks' d c)))
              = ReconnectsTotal c"
    using fifth by blast
  show ?thesis
    by (intro conjI first second' third' fourth' fifth')
qed

theorem reconnect_counted_witness:
  "Type login_b = EventUserLogin \<and> Type disconnect_a = EventUserDisconnect
   \<and> Server disconnect_a = Server login_b \<and> Username disconnect_a = Username login_b
   \<and> Timestamp (login_b\<lparr>Timestamp := 50 * Second\<rparr>) - Timestamp disconnect_a < 5 * Minute
   \<and> vec_value (ReconnectsTotal (ProcessEvent [] (login_b\<lparr>Timestamp := 50 * Second\<rparr>)
        (ProcessEvent [] disconnect_a New))) [''ocserv'', ''u''] = 1
   \<and> lastDisconnects New = Map.empty
   \<and> Some (userKey (Server login_b) (Username login_b)) \<notin> disconnect_key ` set [Process [] login_a]
   \<and> ReconnectsTotal (ProcessEvent [] login_b (run [Process [] login_a] New))
       = ReconnectsTotal (run [Process [] login_a] New)
   \<and> list_all (keeps_record (userKey (Server disconnect_a) (Username disconnect_a))
         (Timestamp disconnect_a))
        [Process [] bye_a, Cleanup (100 * Second) [''ocserv:u''] [] []]
   \<and> vec_value (ReconnectsTotal (ProcessEvent [] (login_b\<lparr>Timestamp := 50 * Second\<rparr>)
        (run [Process [] bye_a, Cleanup (100 * Second) [''ocserv:u''] [] []]
           (ProcessEvent [] disconnect_a New)))) [''ocserv'', ''u''] = 1
   \<and> userKey (Server disconnect_a) (Username disconnect_a) \<in> set [''ocserv:u'']
   \<and> ReconnectWindow * 2 < Sub (20 * Minute) (Timestamp disconnect_a)
   \<and> vec_value (ReconnectsTotal (ProcessEvent [] (login_b\<lparr>Timestamp := 50 * Second\<rparr>)
        (CleanupOldDisconnects (20 * Minute) [''ocserv:u''] [] []
           (ProcessEvent [] disconnect_a New)))) [''ocserv'', ''u''] = 0"
proof -
  let ?l = "login_b\<lparr>Timestamp := 50 * Second\<rparr>"
  let ?between = "[Process [] bye_a, Cleanup (100 * Second) [''ocserv:u''] [] []]"
  have ty: "Type ?l = EventUserLogin" "Type login_b = EventUserLogin"
    "Type disconnect_a = EventUserDisconnect"
    by (simp_all add: example_events)
  have same: "Server disconnect_a = Server ?l" "Username disconnect_a = Username ?l"
    "Timestamp ?l - Timestamp disconnect_a < 5 * Minute"
    "Server ?l = ''ocserv''" "Username ?l = ''u''"
    by (simp_all add: example_events Minute_def Second_def)
  have e: "lastDisconnects New = Map.empty" and z: "ReconnectsTotal New = Map.empty"
    by (simp_all add: New_def)
  have n: "Some (userKey (Server login_b) (Username login_b))
             \<notin> disconnect_key ` set [Process [] login_a]"
    by (simp add: example_events)
  have kept: "list_all (keeps_record (userKey (Server disconnect_a) (Username disconnect_a))
         (Timestamp disconnect_a)) ?between"
    by (simp add: example_events Sub_def Let_def minDuration_def maxDuration_def
        ReconnectWindow_def Minute_def Second_def)
  have listed: "userKey (Server disconnect_a) (Username disconnect_a) \<in> set [''ocserv:u'']"
    by (simp add: example_events userKey_def)
  have late: "ReconnectWindow * 2 < Sub (20 * Minute) (Timestamp disconnect_a)"
    by (simp add: example_events Sub_def Let_def minDuration_def maxDuration_def
        ReconnectWindow_def Minute_def Second_def)
  have quiet: "ReconnectsTotal (run ?between (ProcessEvent [] disconnect_a New)) = Map.empty"
    by (simp add: run_def ProcessEvent_ReconnectsTotal Cleanup_ReconnectsTotal z example_events)
  have a: "vec_value (ReconnectsTotal (ProcessEvent [] ?l (ProcessEvent [] disconnect_a New)))
             [''ocserv'', ''u''] = 1"
    using reconnect_counted [OF ty(1), where ks = "[]" and c = New and d = disconnect_a
        and ks' = "[]" and acts = "[]"] ty(3) same
    by (simp add: z vec_value_Inc)
  have b: "ReconnectsTotal (ProcessEvent [] login_b (run [Process [] login_a] New))
       = ReconnectsTotal (run [Process [] login_a] New)"
    using reconnect_counted [OF ty(2), where ks = "[]" and c = New
        and acts = "[Process [] login_a]" and d = disconnect_a and ks' = "[]"] e n
    by simp
  note t = reconnect_counted [OF ty(1), where ks = "[]" and c = New and d = disconnect_a
        and ks' = "[]" and acts = "[]" and between = ?between and now = "20 * Minute"
        and ksd = "[''ocserv:u'']" and ksw = "[]" and kss = "[]"]
  have c: "vec_value (ReconnectsTotal (ProcessEvent [] ?l
             (run ?between (ProcessEvent [] disconnect_a New)))) [''ocserv'', ''u''] = 1"
  proof -
    from t have "Type disconnect_a = EventUserDisconnect \<and> Server disconnect_a = Server ?l
        \<and> Username disconnect_a = Username ?l
        \<and> list_all (keeps_record (userKey (Server disconnect_a) (Username disconnect_a))
              (Timestamp disconnect_a)) ?between \<longrightarrow>
      ReconnectsTotal (ProcessEvent [] ?l (run ?between (ProcessEvent [] disconnect_a New)))
        = (if Timestamp ?l - Timestamp disconnect_a < 5 * Minute
           then vec_Inc (ReconnectsTotal (run ?between (ProcessEvent [] disconnect_a New)))
                  [Server ?l, Username ?l]
           else ReconnectsTotal (run ?between (ProcessEvent [] disconnect_a New)))"
      by blast
    with ty(3) same(1,2,3) kept
    have "ReconnectsTotal (ProcessEvent [] ?l (run ?between (ProcessEvent [] disconnect_a New)))
        = vec_Inc (ReconnectsTotal (run ?between (ProcessEvent [] disconnect_a New)))
                  [Server ?l, Username ?l]"
      by simp
    then show ?thesis
      unfolding quiet same(4,5) by (simp add: vec_value_Inc)
  qed
  have d: "vec_value (ReconnectsTotal (ProcessEvent [] ?l
             (CleanupOldDisconnects (20 * Minute) [''ocserv:u''] [] []
                (ProcessEvent [] disconnect_a New)))) [''ocserv'', ''u''] = 0"
  proof -
    from t have "Type disconnect_a = EventUserDisconnect \<and> Server disconnect_a = Server ?l
        \<and> Username disconnect_a = Username ?l
        \<and> userKey (Server disconnect_a) (Username disconnect_a) \<in> set [''ocserv:u'']
        \<and> ReconnectWindow * 2 < Sub (20 * Minute) (Timestamp disconnect_a) \<longrightarrow>
      ReconnectsTotal (ProcessEvent [] ?l (CleanupOldDisconnects (20 * Minute) [''ocserv:u''] [] []
          (ProcessEvent [] disconnect_a New))) = ReconnectsTotal New"
      by blast
    with ty(3) same(1,2) listed late
    have "ReconnectsTotal (ProcessEvent [] ?l (CleanupOldDisconnects (20 * Minute) [''ocserv:u''] [] []
          (ProcessEvent [] disconnect_a New))) = ReconnectsTotal New"
      by simp
    then show ?thesis by (simp add: z)
  qed
  have "Server disconnect_a = Server login_b" "Username disconnect_a = Username login_b"
    by (simp_all add: example_events)
  then show ?thesis
    using ty same(3) e n a b kept c listed late d by blast
qed

text \<open>
  Claim C3 as it is worded has no login counted as a reconnect unless a disconnect of the
  same server and username came before, and has every login less than five minutes after
  a disconnect of the same server and username counted. Neither holds. The user \<open>c\<close> of
  server \<open>a:b\<close> disconnects; a second later the user \<open>b:c\<close> of server \<open>a\<close>, who never
  disconnected, logs in and is counted as reconnecting, since both have the key \<open>a:b:c\<close>.
  A user disconnects at 45 seconds and logs in at 50 seconds; the sweeper, running in
  between at a clock time of 20 minutes, has evicted the record, and the login is not
  counted. A user disconnects at 9 minutes and logs in at 10 minutes; a disconnect of the
  same user stamped 45 seconds that is processed in between has replaced the record, and
  the login is not counted.
\<close>

theorem reconnect_without_disconnect_counterexample:
  "(Server colliding_disconnect, Username colliding_disconnect)
     \<noteq> (Server colliding_login, Username colliding_login)
   \<and> vec_value (ReconnectsTotal (run [Process [] colliding_disconnect] New)) [''a'', ''b:c''] = 0
   \<and> vec_value (ReconnectsTotal
        (run [Process [] colliding_disconnect, Process [] colliding_login] New)) [''a'', ''b:c'']
       = 1
   \<and> (Server disconnect_a, Username disconnect_a) = (Server login_b, Username login_b)
   \<and> Timestamp (login_b\<lparr>Timestamp := 50 * Second\<rparr>) - Timestamp disconnect_a < 5 * Minute
   \<and> vec_value (ReconnectsTotal
        (run [Process [] disconnect_a, Cleanup (20 * Minute) [''ocserv:u''] [] [],
              Process [] (login_b\<lparr>Timestamp := 50 * Second\<rparr>)] New)) [''ocserv'', ''u'']
       = 0
   \<and> Timestamp (login_b\<lparr>Timestamp := 10 * Minute\<rparr>)
         - Timestamp (disconnect_a\<lparr>Timestamp := 9 * Minute\<rparr>) < 5 * Minute
   \<and> vec_value (ReconnectsTotal
        (run [Process [] (disconnect_a\<lparr>Timestamp := 9 * Minute\<rparr>), Process [] disconnect_a,
              Process [] (login_b\<lparr>Timestamp := 10 * Minute\<rparr>)] New)) [''ocserv'', ''u'']
       = 0"
proof -
  let ?l = "login_b\<lparr>Timestamp := 50 * Second\<rparr>"
  let ?l' = "login_b\<lparr>Timestamp := 10 * Minute\<rparr>"
  let ?d = "disconnect_a\<lparr>Timestamp := 9 * Minute\<rparr>"
  have ty: "Type colliding_disconnect = EventUserDisconnect" "Type colliding_login = EventUserLogin"
    "Type disconnect_a = EventUserDisconnect" "Type ?l = EventUserLogin"
    "Type ?d = EventUserDisconnect" "Type ?l' = EventUserLogin"
    by (simp_all add: example_events)
  have f: "Server colliding_disconnect = ''a:b''" "Username colliding_disconnect = ''c''"
    "Server colliding_login = ''a''" "Username colliding_login = ''b:c''"
    "Timestamp colliding_disconnect = 0" "Timestamp colliding_login = 1 * Second"
    by (simp_all add: example_events)
  have g: "Server disconnect_a = ''ocserv''" "Username disconnect_a = ''u''"
    "Server ?l = ''ocserv''" "Username ?l = ''u''" "Server login_b = ''ocserv''"
    "Username login_b = ''u''" "Server ?d = ''ocserv''" "Username ?d = ''u''"
    "Timestamp disconnect_a = 45 * Second" "Timestamp ?l = 50 * Second"
    "Timestamp ?d = 9 * Minute" "Server ?l' = ''ocserv''" "Username ?l' = ''u''"
    "Timestamp ?l' = 10 * Minute"
    by (simp_all add: example_events)
  have r0: "ReconnectsTotal (ProcessEvent [] colliding_disconnect New) = Map.empty"
    by (simp add: ProcessEvent_cases ty handleDisconnect_ReconnectsTotal New_def)
  have r1: "ReconnectsTotal (ProcessEvent [] colliding_login (ProcessEvent [] colliding_disconnect New))
      = vec_Inc Map.empty [''a'', ''b:c'']"
    by (simp add: ProcessEvent_cases(1) [OF ty(2)] handleLogin_ReconnectsTotal
        ProcessEvent_lastDisconnects ty r0 f userKey_def Minute_def Second_def)
  have q: "50 * Second - Timestamp disconnect_a < 5 * Minute"
    "10 * Minute - 9 * Minute < 5 * Minute"
    by (simp_all add: g Minute_def Second_def)
  have r2: "ReconnectsTotal (ProcessEvent [] disconnect_a c) = ReconnectsTotal c"
    "ReconnectsTotal (ProcessEvent [] ?d c) = ReconnectsTotal c" for c
    by (simp_all add: ProcessEvent_ReconnectsTotal ty)
  have z: "ReconnectsTotal New = Map.empty"
    by (simp add: New_def)
  have late: "ReconnectWindow * 2 < Sub (20 * Minute) (45 * Second)"
    by (simp add: Sub_def Let_def minDuration_def maxDuration_def ReconnectWindow_def Minute_def
        Second_def)
  have gone: "lastDisconnects (CleanupOldDisconnects (20 * Minute) [''ocserv:u''] [] []
      (ProcessEvent [] disconnect_a New)) ''ocserv:u'' = None"
    by (simp add: Cleanup_lastDisconnects stale_disconnect_def ProcessEvent_lastDisconnects ty g
        userKey_def late)
  have r3: "ReconnectsTotal (ProcessEvent [] ?l
      (CleanupOldDisconnects (20 * Minute) [''ocserv:u''] [] [] (ProcessEvent [] disconnect_a New)))
      = Map.empty"
    unfolding ProcessEvent_cases(1) [OF ty(4)] handleLogin_ReconnectsTotal g
    by (simp add: userKey_def gone Cleanup_ReconnectsTotal r2 z)
  have older: "lastDisconnects (ProcessEvent [] disconnect_a (ProcessEvent [] ?d New)) ''ocserv:u''
      = Some \<lparr> d_Server = ''ocserv'', d_Timestamp = 45 * Second \<rparr>"
    unfolding ProcessEvent_lastDisconnects by (simp add: ty g userKey_def)
  have far: "\<not> 10 * Minute - 45 * Second < 5 * Minute"
    by (simp add: Minute_def Second_def)
  have r4: "ReconnectsTotal (ProcessEvent [] ?l'
      (ProcessEvent [] disconnect_a (ProcessEvent [] ?d New))) = Map.empty"
    unfolding ProcessEvent_cases(1) [OF ty(6)] handleLogin_ReconnectsTotal g
    by (simp add: userKey_def older far r2 z del: diff_less_eq)
  have pos: "0 < Minute"
    by (simp add: Minute_def Second_def)
  show ?thesis
    unfolding run_def by (simp add: r0 r1 r3 r4 f g(1,2,5,6) q pos vec_value_Inc)
qed

section \<open>What a disconnect cleans up\<close>

text \<open>
  Claim C4, as the code has it. When a session exists under the key of
  \<open>(server, username, clientIP, port)\<close>, a disconnect deletes the session-info entry
  labelled with the session's VPN address and country, so that at most one entry goes and
  no other entry changes; it lowers the active-session gauge of \<open>(server, username)\<close> by
  exactly one and deletes the session. When no session exists, neither gauge changes. In
  both cases the disconnect record of \<open>(server, username)\<close> is written with the event's
  timestamp, the disconnection counter of the enriched reason goes up by one, the byte
  totals grow by the event's counts as \<^verbatim>\<open>float64\<close> converts them, and both
  worker-context keys of the user are deleted. The conversion is exact for a count of at
  most \<open>2 ^ 53\<close> and moves a larger count of 64 bits by at most 1024.
\<close>

theorem disconnect_cleanup:
  "(let key = sessionKey (Server event) (Username event) (ClientIP event) (Port event);
        c' = handleDisconnect event c
    in (case sessions c key of
          Some session \<Rightarrow>
            SessionInfo c' = vec_Delete (SessionInfo c)
               [Server event, Username event, s_VpnIP session, s_Country session, []]
            \<and> dom (SessionInfo c') = dom (SessionInfo c)
                 - {[Server event, Username event, s_VpnIP session, s_Country session, []]}
            \<and> ActiveSessions c' = vec_Dec (ActiveSessions c) [Server event, Username event]
            \<and> vec_value (ActiveSessions c') [Server event, Username event]
                 = vec_value (ActiveSessions c) [Server event, Username event] - 1
        | None \<Rightarrow> SessionInfo c' = SessionInfo c \<and> ActiveSessions c' = ActiveSessions c)
       \<and> sessions c' = (sessions c)(key := None)
       \<and> lastDisconnects c' = (lastDisconnects c)(userKey (Server event) (Username event) \<mapsto>
             \<lparr> d_Server = Server event, d_Timestamp = Timestamp event \<rparr>)
       \<and> DisconnectionsTotal c' = vec_Inc (DisconnectionsTotal c)
             [Server event, Username event,
              enriched_reason_spec (workerContext c) (Server event) (Username event)
                (ClientIP event) (Reason event)]
       \<and> ReceivedBytesTotal c'
            = vec_Add (ReceivedBytesTotal c) [Server event, Username event]
                (float64 (RxBytes event))
       \<and> SentBytesTotal c'
            = vec_Add (SentBytesTotal c) [Server event, Username event]
                (float64 (TxBytes event))
       \<and> (RxBytes event \<le> 2 ^ 53 \<longrightarrow> float64 (RxBytes event) = int (RxBytes event))
       \<and> (TxBytes event \<le> 2 ^ 53 \<longrightarrow> float64 (TxBytes event) = int (TxBytes event))
       \<and> (RxBytes event < 2 ^ 64 \<longrightarrow> \<bar>float64 (RxBytes event) - int (RxBytes event)\<bar> \<le> 1024)
       \<and> (TxBytes event < 2 ^ 64 \<longrightarrow> \<bar>float64 (TxBytes event) - int (TxBytes event)\<bar> \<le> 1024)
       \<and> workerContext c' = (workerContext c)
             (workerContextKey (Server event) (Username event) (ClientIP event) := None,
              workerContextKey (Server event) (Username event) [] := None))"
  unfolding Let_def
proof (intro conjI)
  show "case sessions c (sessionKey (Server event) (Username event) (ClientIP event) (Port event)) of
          None \<Rightarrow> SessionInfo (handleDisconnect event c) = SessionInfo c
                 \<and> ActiveSessions (handleDisconnect event c) = ActiveSessions c
        | Some session \<Rightarrow>
            SessionInfo (handleDisconnect event c) = vec_Delete (SessionInfo c)
               [Server event, Username event, s_VpnIP session, s_Country session, []]
            \<and> dom (SessionInfo (handleDisconnect event c)) = dom (SessionInfo c)
                 - {[Server event, Username event, s_VpnIP session, s_Country session, []]}
            \<and> ActiveSessions (handleDisconnect event c)
                 = vec_Dec (ActiveSessions c) [Server event, Username event]
            \<and> vec_value (ActiveSessions (handleDisconnect event c)) [Server event, Username event]
                 = vec_value (ActiveSessions c) [Server event, Username event] - 1"
    by (simp add: handleDisconnect_SessionInfo handleDisconnect_ActiveSessions dom_vec_Delete
        vec_value_Dec split: option.splits)
  show "RxBytes event \<le> 2 ^ 53 \<longrightarrow> float64 (RxBytes event) = int (RxBytes event)"
    by (simp add: float64_exact)
  show "TxBytes event \<le> 2 ^ 53 \<longrightarrow> float64 (TxBytes event) = int (TxBytes event)"
    by (simp add: float64_exact)
  show "RxBytes event < 2 ^ 64 \<longrightarrow> \<bar>float64 (RxBytes event) - int (RxBytes event)\<bar> \<le> 1024"
    by (simp add: float64_within)
  show "TxBytes event < 2 ^ 64 \<longrightarrow> \<bar>float64 (TxBytes event) - int (TxBytes event)\<bar> \<le> 1024"
    by (simp add: float64_within)
qed (simp_all only: handleDisconnect_sessions handleDisconnect_lastDisconnects
      handleDisconnect_DisconnectionsTotal handleDisconnect_bytes handleDisconnect_workerContext
      enrich_refines_spec)

theorem disconnect_cleanup_witness:
  "sessions (handleLogin login_a New) (sessionKey ''ocserv'' ''u'' ''1.2.3.4'' 1)
     = Some \<lparr> s_Server = ''ocserv'', s_Username = ''u'', s_ClientIP = ''1.2.3.4'', s_Port = 1,
              s_VpnIP = [], s_Country = [], s_SessionID = [], s_StartTime = 0 \<rparr>
   \<and> dom (SessionInfo (handleLogin login_a New)) = {[''ocserv'', ''u'', [], [], []]}
   \<and> dom (SessionInfo (handleDisconnect disconnect_a (handleLogin login_a New))) = {}
   \<and> vec_value (ActiveSessions (handleLogin login_a New)) [''ocserv'', ''u''] = 1
   \<and> vec_value (ActiveSessions (handleDisconnect disconnect_a (handleLogin login_a New)))
        [''ocserv'', ''u''] = 0
   \<and> sessions (handleDisconnect disconnect_a (handleLogin login_a New)) = Map.empty
   \<and> RxBytes disconnect_a = 100 \<and> TxBytes disconnect_a = 200
   \<and> vec_value (ReceivedBytesTotal (handleDisconnect disconnect_a (handleLogin login_a New)))
        [''ocserv'', ''u''] = 100
   \<and> vec_value (SentBytesTotal (handleDisconnect disconnect_a (handleLogin login_a New)))
        [''ocserv'', ''u''] = 200"
proof -
  let ?c = "handleLogin login_a New"
  have s: "sessions ?c = [''ocserv:u:1.2.3.4:1'' \<mapsto>
              \<lparr> s_Server = ''ocserv'', s_Username = ''u'', s_ClientIP = ''1.2.3.4'', s_Port = 1,
                s_VpnIP = [], s_Country = [], s_SessionID = [], s_StartTime = 0 \<rparr>]"
    by (simp add: handleLogin_sessions LookupCountry_def New_def example_events key_text)
  have i: "SessionInfo ?c = [[''ocserv'', ''u'', [], [], []] \<mapsto> 0]"
    by (simp add: handleLogin_SessionInfo LookupCountry_def New_def example_events vec_Set_def
        Unix_def)
  have a: "vec_value (ActiveSessions ?c) [''ocserv'', ''u''] = 1"
    by (simp add: handleLogin_ActiveSessions vec_value_Inc New_def example_events)
  have k: "sessionKey ''ocserv'' ''u'' ''1.2.3.4'' 1 = ''ocserv:u:1.2.3.4:1''"
    by (simp add: key_text)
  have kd: "sessionKey (Server disconnect_a) (Username disconnect_a) (ClientIP disconnect_a)
              (Port disconnect_a) = ''ocserv:u:1.2.3.4:1''"
    by (simp add: example_events key_text)
  have l: "Server disconnect_a = ''ocserv''" "Username disconnect_a = ''u''"
    by (simp_all add: example_events)
  note t = disconnect_cleanup [of disconnect_a ?c, unfolded Let_def kd]
  have d: "dom (SessionInfo (handleDisconnect disconnect_a ?c)) = {}"
    using t by (simp add: s i l vec_Delete_def)
  have g: "vec_value (ActiveSessions (handleDisconnect disconnect_a ?c)) [''ocserv'', ''u''] = 0"
    using t by (simp add: s a l vec_value_Dec)
  have e: "sessions (handleDisconnect disconnect_a ?c) = Map.empty"
    using t by (simp add: s)
  have b: "RxBytes disconnect_a = 100" "TxBytes disconnect_a = 200"
    by (simp_all add: example_events)
  have z: "ReceivedBytesTotal ?c = Map.empty" "SentBytesTotal ?c = Map.empty"
    by (simp_all add: handleLogin_bytes New_def)
  have rx: "vec_value (ReceivedBytesTotal (handleDisconnect disconnect_a ?c)) [''ocserv'', ''u'']
              = 100"
    using t by (simp add: b l z vec_value_Add)
  have tx: "vec_value (SentBytesTotal (handleDisconnect disconnect_a ?c)) [''ocserv'', ''u'']
              = 200"
    using t by (simp add: b l z vec_value_Add)
  show ?thesis
    using s i a d g e b rx tx by (simp add: k)
qed

text \<open>
  Claim C4 as it is worded asks for exactly one session-info entry to go whenever a session
  exists, and for the byte totals to grow by the event's counts. Two sessions of one user
  that have no VPN address yet share one entry: the first disconnect deletes it, and the
  second, whose session does exist, removes nothing. And a count above \<open>2 ^ 53\<close> is rounded
  before it is added: a disconnect that reports \<open>2 ^ 53 + 1\<close> received bytes adds
  \<open>2 ^ 53\<close>, and one that reports \<open>2 ^ 64 - 1\<close> sent bytes, the value the parser gives a
  count that is out of range, adds \<open>2 ^ 64\<close>.
\<close>

theorem disconnect_removes_no_entry_counterexample:
  "sessions second_of_two (sessionKey (Server disconnect_b) (Username disconnect_b)
      (ClientIP disconnect_b) (Port disconnect_b)) \<noteq> None
   \<and> SessionInfo (handleDisconnect disconnect_b second_of_two) = SessionInfo second_of_two
   \<and> vec_value (ReceivedBytesTotal
        (handleDisconnect (disconnect_a\<lparr>RxBytes := 9007199254740993\<rparr>) New)) [''ocserv'', ''u'']
       = 9007199254740992
   \<and> vec_value (SentBytesTotal
        (handleDisconnect (disconnect_a\<lparr>TxBytes := 18446744073709551615\<rparr>) New))
          [''ocserv'', ''u'']
       = 18446744073709551616"
proof -
  have s: "sessions second_of_two ''ocserv:u:1.2.3.4:2''
      = Some \<lparr> s_Server = ''ocserv'', s_Username = ''u'', s_ClientIP = ''1.2.3.4'', s_Port = 2,
               s_VpnIP = [], s_Country = [], s_SessionID = [], s_StartTime = 1 * Second \<rparr>"
    by (simp add: second_of_two_def handleDisconnect_sessions handleLogin_sessions
        LookupCountry_def handleLogin_unchanged New_def example_events key_text)
  have i: "SessionInfo second_of_two = Map.empty"
    by (simp add: second_of_two_def handleDisconnect_SessionInfo handleLogin_sessions
        handleLogin_SessionInfo LookupCountry_def handleLogin_unchanged New_def example_events
        key_text vec_Set_def vec_Delete_def)
  have k: "sessionKey (Server disconnect_b) (Username disconnect_b)
      (ClientIP disconnect_b) (Port disconnect_b) = ''ocserv:u:1.2.3.4:2''"
    by (simp add: example_events key_text)
  have e: "sessions second_of_two (sessionKey (Server disconnect_b) (Username disconnect_b)
      (ClientIP disconnect_b) (Port disconnect_b)) \<noteq> None
     \<and> SessionInfo (handleDisconnect disconnect_b second_of_two) = SessionInfo second_of_two"
    unfolding k handleDisconnect_SessionInfo
    by (simp add: s i vec_Delete_def)
  have rx: "vec_value (ReceivedBytesTotal
        (handleDisconnect (disconnect_a\<lparr>RxBytes := 9007199254740993\<rparr>) New)) [''ocserv'', ''u'']
       = 9007199254740992"
    by (simp add: handleDisconnect_bytes vec_value_Add New_def example_events float64_def Let_def
        bit_length.simps)
  have tx: "vec_value (SentBytesTotal
        (handleDisconnect (disconnect_a\<lparr>TxBytes := 18446744073709551615\<rparr>) New))
          [''ocserv'', ''u'']
       = 18446744073709551616"
    by (simp add: handleDisconnect_bytes vec_value_Add New_def example_events float64_def Let_def
        bit_length.simps)
  show ?thesis
    by (intro conjI e [THEN conjunct1] e [THEN conjunct2] rx tx)
qed

section \<open>Session-manager lifecycle events\<close>

text \<open>
  Claim C5, as the code has it. Only a SessionStart event is recorded in the space of keys
  \<open>sid:server:sessionID\<close>: it stores an entry with the server, the username, the session
  identifier and the event's timestamp, and moves no metric but the timestamp of the last
  event. A SessionInvalidate event has no case in the dispatch: it sets the timestamp of the
  last event and changes nothing else, so it records nothing.
\<close>

theorem session_lifecycle_recording:
  "(Type event = EventSessionStart \<longrightarrow>
      ProcessEvent ks event c
        = c\<lparr>LastEventTimestamp := Unix (Timestamp event),
             sessions := (sessions c)(sidKey (Server event) (SessionID event) \<mapsto>
               \<lparr> s_Server = Server event, s_Username = Username event, s_ClientIP = [],
                 s_Port = 0, s_VpnIP = [], s_Country = [], s_SessionID = SessionID event,
                 s_StartTime = Timestamp event \<rparr>)\<rparr>)
   \<and> (Type event = EventSessionInvalidate \<longrightarrow>
      ProcessEvent ks event c = c\<lparr>LastEventTimestamp := Unix (Timestamp event)\<rparr>)"
  by (simp add: ProcessEvent_def handleSessionStart_def)

theorem session_lifecycle_recording_witness:
  "Type start_a = EventSessionStart
   \<and> sessions (ProcessEvent [] start_a New)
       = [''sid:ocserv:yKsy7b'' \<mapsto>
            \<lparr> s_Server = ''ocserv'', s_Username = ''u'', s_ClientIP = [], s_Port = 0,
              s_VpnIP = [], s_Country = [], s_SessionID = ''yKsy7b'', s_StartTime = 0 \<rparr>]
   \<and> Type invalidate_a = EventSessionInvalidate
   \<and> ProcessEvent [] invalidate_a New = New"
proof -
  have t1: "Type start_a = EventSessionStart" and t2: "Type invalidate_a = EventSessionInvalidate"
    by (simp_all add: example_events)
  note r = session_lifecycle_recording [of start_a "[]" New]
  note q = session_lifecycle_recording [of invalidate_a "[]" New]
  have a: "sessions (ProcessEvent [] start_a New)
       = [''sid:ocserv:yKsy7b'' \<mapsto>
            \<lparr> s_Server = ''ocserv'', s_Username = ''u'', s_ClientIP = [], s_Port = 0,
              s_VpnIP = [], s_Country = [], s_SessionID = ''yKsy7b'', s_StartTime = 0 \<rparr>]"
    using r t1 by (simp add: New_def example_events key_text)
  have b: "ProcessEvent [] invalidate_a New = New"
    using q t2 by (simp add: New_def example_events Unix_def)
  from t1 a t2 b show ?thesis by blast
qed

text \<open>
  Claim C5 as it is worded has a SessionInvalidate event recorded as a SessionStart event is.
  From the empty collector the first leaves the session table empty and the second does not.
\<close>

theorem invalidate_records_nothing_counterexample:
  "sessions (ProcessEvent [] invalidate_a New) (sidKey (Server invalidate_a) (SessionID invalidate_a))
     = None
   \<and> sessions (ProcessEvent [] start_a New) (sidKey (Server start_a) (SessionID start_a)) \<noteq> None"
  by (simp add: ProcessEvent_def handleSessionStart_def New_def example_events)

section \<open>The sweeper\<close>

lemma sweepDisconnects_nothing_stale:
  "\<forall>k. \<not> stale_disconnect now c k \<Longrightarrow> sweepDisconnects now ks c = c"
  by (induction ks) (auto simp: stale_disconnect_def split: option.splits)

lemma sweepWorkerContexts_nothing_stale:
  "\<forall>k. \<not> stale_context now c k \<Longrightarrow> sweepWorkerContexts now ks c = c"
  by (induction ks) (auto simp: stale_context_def split: option.splits)

lemma sweepSessions_nothing_stale:
  "\<forall>k. \<not> stale_session now c k \<Longrightarrow> sweepSessions now ks c = c"
  by (induction ks) (auto simp: stale_session_def split: option.splits)

lemma swept_nothing_stale:
  assumes "dom (lastDisconnects c) \<subseteq> set ksd" and "dom (workerContext c) \<subseteq> set ksw"
    and "dom (sessions c) \<subseteq> set kss"
  shows "\<not> stale_disconnect now (CleanupOldDisconnects now ksd ksw kss c) k"
    and "\<not> stale_context now (CleanupOldDisconnects now ksd ksw kss c) k"
    and "\<not> stale_session now (CleanupOldDisconnects now ksd ksw kss c) k"
proof -
  let ?c' = "CleanupOldDisconnects now ksd ksw kss c"
  have d: "lastDisconnects ?c' k
      = (if k \<in> set ksd \<and> stale_disconnect now c k then None else lastDisconnects c k)"
    by (simp add: CleanupOldDisconnects_def sweepSessions_unchanged sweepWorkerContexts_unchanged
        sweepDisconnects_result)
  have w: "workerContext ?c' k
      = (if k \<in> set ksw \<and> stale_context now c k then None else workerContext c k)"
    by (simp add: CleanupOldDisconnects_def sweepSessions_unchanged sweepWorkerContexts_result
        stale_context_def sweepDisconnects_unchanged)
  have s: "sessions ?c' k
      = (if k \<in> set kss \<and> stale_session now c k then None else sessions c k)"
    by (simp add: CleanupOldDisconnects_def sweepSessions_result stale_session_def
        sweepWorkerContexts_unchanged sweepDisconnects_unchanged)
  show "\<not> stale_disconnect now ?c' k"
    using assms(1) by (auto simp: stale_disconnect_def [of now ?c'] d split: option.splits if_splits)
      (auto simp: stale_disconnect_def)
  show "\<not> stale_context now ?c' k"
    using assms(2) by (auto simp: stale_context_def [of now ?c'] w split: option.splits if_splits)
      (auto simp: stale_context_def)
  show "\<not> stale_session now ?c' k"
    using assms(3) by (auto simp: stale_session_def [of now ?c'] s split: option.splits if_splits)
      (auto simp: stale_session_def)
qed

lemma Cleanup_nothing_stale:
  assumes "\<forall>k. \<not> stale_disconnect now c k" and "\<forall>k. \<not> stale_context now c k"
    and "\<forall>k. \<not> stale_session now c k"
  shows "CleanupOldDisconnects now ksd ksw kss c = c"
  using assms
  by (simp add: CleanupOldDisconnects_def sweepDisconnects_nothing_stale
      sweepWorkerContexts_nothing_stale sweepSessions_nothing_stale)

lemma sweepSessions_SessionInfo_absent:
  "SessionInfo c l = None \<Longrightarrow> SessionInfo (sweepSessions now ks c) l = None"
  by (induction ks arbitrary: c) (auto simp: Let_def vec_Delete_def split: option.splits)

lemma sweepSessions_deletes_info:
  assumes "k \<in> set ks" and "sessions c k = Some s" and "stale_session now c k"
  shows "SessionInfo (sweepSessions now ks c)
           [s_Server s, s_Username s, s_VpnIP s, s_Country s, []] = None"
  using assms
proof (induction ks arbitrary: c)
  case Nil
  then show ?case by simp
next
  case (Cons a ks)
  show ?case
  proof (cases "a = k")
    case True
    with Cons.prems show ?thesis
      by (simp add: stale_session_def Let_def sweepSessions_SessionInfo_absent vec_Delete_def)
  next
    case False
    with Cons.prems have in_rest: "k \<in> set ks" by simp
    show ?thesis
    proof (cases "stale_session now c a")
      case True
      then obtain t where t: "sessions c a = Some t" "\<not> is_sid_key a"
          "Sub now (s_StartTime t) > MaxSessionAge"
        by (auto simp: stale_session_def split: option.splits)
      let ?c2 = "sessions_update (\<lambda>m. m(a := None))
          (ActiveSessions_update (\<lambda>m. vec_Dec m [s_Server t, s_Username t])
            (SessionInfo_update (\<lambda>m. vec_Delete m
               [s_Server t, s_Username t, s_VpnIP t, s_Country t, []]) c))"
      have "sessions ?c2 k = Some s" "stale_session now ?c2 k"
        using False Cons.prems by (simp_all add: stale_session_def)
      from Cons.IH [OF in_rest this] show ?thesis
        using t by (simp add: Let_def)
    next
      case False
      then have "sweepSessions now (a # ks) c = sweepSessions now ks c"
        by (auto simp: stale_session_def split: option.splits)
      with Cons.IH [OF in_rest Cons.prems(2,3)] show ?thesis by simp
    qed
  qed
qed

lemma evicted_finite: "finite {k \<in> set ks. P k}"
  by simp

lemma sweepSessions_gauge:
  "vec_value (ActiveSessions (sweepSessions now ks c)) l
     = vec_value (ActiveSessions c) l
       - int (card {k \<in> set ks. stale_session now c k \<and> session_label c k = Some l})"
proof (induction ks arbitrary: c)
  case Nil
  then show ?case by simp
next
  case (Cons a ks)
  let ?E = "\<lambda>c ks. {k \<in> set ks. stale_session now c k \<and> session_label c k = Some l}"
  show ?case
  proof (cases "stale_session now c a")
    case False
    then have "sweepSessions now (a # ks) c = sweepSessions now ks c"
      by (auto simp: stale_session_def split: option.splits)
    moreover from False have "?E c (a # ks) = ?E c ks"
      by auto
    ultimately show ?thesis
      using Cons.IH [of c] by simp
  next
    case True
    then obtain t where t: "sessions c a = Some t" "\<not> is_sid_key a"
        "Sub now (s_StartTime t) > MaxSessionAge"
      by (auto simp: stale_session_def split: option.splits)
    let ?c2 = "sessions_update (\<lambda>m. m(a := None))
        (ActiveSessions_update (\<lambda>m. vec_Dec m [s_Server t, s_Username t])
          (SessionInfo_update (\<lambda>m. vec_Delete m
             [s_Server t, s_Username t, s_VpnIP t, s_Country t, []]) c))"
    have sw: "sweepSessions now (a # ks) c = sweepSessions now ks ?c2"
      using t by (simp add: Let_def)
    have rest: "?E ?c2 ks = ?E c ks - {a}"
      by (auto simp: stale_session_def session_label_def split: option.splits)
    have fin: "finite (?E c ks)"
      by simp
    have stepped: "vec_value (ActiveSessions (sweepSessions now (a # ks) c)) l
        = vec_value (ActiveSessions ?c2) l - int (card (?E c ks - {a}))"
      using Cons.IH [of ?c2] by (simp only: sw rest)
    show ?thesis
    proof (cases "[s_Server t, s_Username t] = l")
      case True
      then have all: "?E c (a # ks) = insert a (?E c ks)"
        using \<open>stale_session now c a\<close> t by (auto simp: session_label_def)
      have count: "card (insert a (?E c ks)) = Suc (card (?E c ks - {a}))"
        using fin by (simp add: card.insert_remove)
      have lowered: "vec_value (ActiveSessions ?c2) l = vec_value (ActiveSessions c) l - 1"
        using True by (simp add: vec_value_Dec)
      show ?thesis
        unfolding stepped lowered all count by simp
    next
      case False
      then have all: "?E c (a # ks) = ?E c ks" and "a \<notin> ?E c ks"
        using t by (auto simp: session_label_def)
      then have same: "?E c ks - {a} = ?E c ks"
        by blast
      have kept: "vec_value (ActiveSessions ?c2) l = vec_value (ActiveSessions c) l"
        using False by (simp add: vec_value_Dec)
      show ?thesis
        unfolding stepped kept all same by simp
    qed
  qed
qed

lemma stale_session_cong:
  "sessions c' = sessions c \<Longrightarrow> stale_session now c' k = stale_session now c k"
  "sessions c' = sessions c \<Longrightarrow> session_label c' k = session_label c k"
  by (simp_all add: stale_session_def session_label_def)

text \<open>
  Claim C7, as the code has it. After one sweep in which each pass enumerates its table, a
  second sweep at the same instant, in any order, changes nothing at all, so no table
  changes size. A session older than 24 hours whose key does not begin with \<open>sid:\<close> is
  removed by the first sweep, and its session-info entry is absent afterwards. The first
  sweep lowers the active-session gauge of each label by the number of sessions with that
  label that it evicts, once for each; since the second sweep changes nothing, no session is
  counted again. The sweep keeps every entry whose key begins with \<open>sid:\<close>, whatever wrote
  it.
\<close>

theorem sweep_settles:
  assumes "map_order (lastDisconnects c) ksd" and "map_order (workerContext c) ksw"
    and "map_order (sessions c) kss"
  shows "(let c' = CleanupOldDisconnects now ksd ksw kss c
          in CleanupOldDisconnects now ksd' ksw' kss' c' = c'
             \<and> (sessions c k = Some s \<and> \<not> is_sid_key k \<and> 24 * Hour < now - s_StartTime s \<longrightarrow>
                  sessions c' k = None
                  \<and> SessionInfo c' [s_Server s, s_Username s, s_VpnIP s, s_Country s, []] = None)
             \<and> vec_value (ActiveSessions c') l
                 = vec_value (ActiveSessions c) l
                   - int (card {k. stale_session now c k \<and> session_label c k = Some l})
             \<and> (\<forall>k. sessions c' k = (if stale_session now c k then None else sessions c k)))"
proof -
  let ?c1 = "sweepWorkerContexts now ksw (sweepDisconnects now ksd c)"
  let ?c' = "CleanupOldDisconnects now ksd ksw kss c"
  have c': "?c' = sweepSessions now kss ?c1"
    by (simp add: CleanupOldDisconnects_def)
  have s1: "sessions ?c1 = sessions c" and a1: "ActiveSessions ?c1 = ActiveSessions c"
    and i1: "SessionInfo ?c1 = SessionInfo c"
    by (simp_all add: sweepWorkerContexts_unchanged sweepDisconnects_unchanged)
  have cover: "dom (lastDisconnects c) \<subseteq> set ksd" "dom (workerContext c) \<subseteq> set ksw"
    "dom (sessions c) \<subseteq> set kss"
    using assms by (simp_all add: map_order_def)
  have enumerated: "k \<in> set kss" if "stale_session now c k" for k
    using that cover(3) by (auto simp: stale_session_def split: option.splits)
  have again: "CleanupOldDisconnects now ksd' ksw' kss' ?c' = ?c'"
    by (intro Cleanup_nothing_stale allI swept_nothing_stale cover)
  have table: "sessions ?c' k = (if stale_session now c k then None else sessions c k)" for k
    using enumerated [of k]
    by (auto simp: c' sweepSessions_result stale_session_cong [OF s1] s1)
  have evicted: "sessions ?c' k = None
      \<and> SessionInfo ?c' [s_Server s, s_Username s, s_VpnIP s, s_Country s, []] = None"
    if h: "sessions c k = Some s \<and> \<not> is_sid_key k \<and> 24 * Hour < now - s_StartTime s"
  proof -
    from h have st: "stale_session now c k"
      by (simp add: stale_session_def beyond_MaxSessionAge)
    then have st1: "stale_session now ?c1 k"
      by (simp add: stale_session_cong [OF s1])
    from h have "sessions ?c1 k = Some s"
      by (simp add: s1)
    from sweepSessions_deletes_info [OF enumerated [OF st] this st1] table [of k] st
    show ?thesis
      by (simp add: c')
  qed
  have same_set: "{k \<in> set kss. stale_session now ?c1 k \<and> session_label ?c1 k = Some l}
      = {k. stale_session now c k \<and> session_label c k = Some l}"
    using enumerated by (auto simp: stale_session_cong [OF s1])
  have gauge: "vec_value (ActiveSessions ?c') l
      = vec_value (ActiveSessions c) l
        - int (card {k. stale_session now c k \<and> session_label c k = Some l})"
    unfolding c' sweepSessions_gauge same_set a1 by (rule refl)
  show ?thesis
    unfolding Let_def using again evicted gauge table by blast
qed

theorem sweep_settles_witness:
  "map_order (lastDisconnects (handleLogin login_a New)) []
   \<and> map_order (workerContext (handleLogin login_a New)) []
   \<and> map_order (sessions (handleLogin login_a New)) [''ocserv:u:1.2.3.4:1'']
   \<and> sessions (handleLogin login_a New) ''ocserv:u:1.2.3.4:1''
       = Some \<lparr> s_Server = ''ocserv'', s_Username = ''u'', s_ClientIP = ''1.2.3.4'', s_Port = 1,
                s_VpnIP = [], s_Country = [], s_SessionID = [], s_StartTime = 0 \<rparr>
   \<and> \<not> is_sid_key ''ocserv:u:1.2.3.4:1''
   \<and> 24 * Hour < 25 * Hour - 0
   \<and> sessions (CleanupOldDisconnects (25 * Hour) [] [] [''ocserv:u:1.2.3.4:1'']
        (handleLogin login_a New)) ''ocserv:u:1.2.3.4:1'' = None
   \<and> SessionInfo (CleanupOldDisconnects (25 * Hour) [] [] [''ocserv:u:1.2.3.4:1'']
        (handleLogin login_a New)) [''ocserv'', ''u'', [], [], []] = None
   \<and> vec_value (ActiveSessions (handleLogin login_a New)) [''ocserv'', ''u''] = 1
   \<and> vec_value (ActiveSessions (CleanupOldDisconnects (25 * Hour) [] [] [''ocserv:u:1.2.3.4:1'']
        (handleLogin login_a New))) [''ocserv'', ''u''] = 0
   \<and> CleanupOldDisconnects (25 * Hour) [] [] []
        (CleanupOldDisconnects (25 * Hour) [] [] [''ocserv:u:1.2.3.4:1''] (handleLogin login_a New))
       = CleanupOldDisconnects (25 * Hour) [] [] [''ocserv:u:1.2.3.4:1''] (handleLogin login_a New)"
proof -
  let ?c = "handleLogin login_a New" and ?k = "''ocserv:u:1.2.3.4:1''"
  let ?e = "\<lparr> s_Server = ''ocserv'', s_Username = ''u'', s_ClientIP = ''1.2.3.4'', s_Port = 1,
              s_VpnIP = [], s_Country = [], s_SessionID = [], s_StartTime = 0 \<rparr>"
  have s: "sessions ?c = [?k \<mapsto> ?e]"
    by (simp add: handleLogin_sessions LookupCountry_def New_def example_events key_text)
  have e: "lastDisconnects New = Map.empty" "workerContext New = Map.empty"
    by (simp_all add: New_def)
  have o: "map_order (lastDisconnects ?c) []" "map_order (workerContext ?c) []"
    "map_order (sessions ?c) [?k]"
    by (simp_all add: map_order_def handleLogin_unchanged e s)
  have g: "sessions ?c ?k = Some ?e"
    by (simp add: s)
  have n: "\<not> is_sid_key ?k"
    by (simp add: is_sid_key_def)
  have old: "24 * Hour < 25 * Hour - (0::int)"
    by (simp add: Hour_def Minute_def Second_def)
  have old': "24 * Hour < 25 * Hour - s_StartTime ?e"
    using old by simp
  have a: "vec_value (ActiveSessions ?c) [''ocserv'', ''u''] = 1"
    by (simp add: handleLogin_ActiveSessions vec_value_Inc New_def example_events)
  have one: "{k. stale_session (25 * Hour) ?c k \<and> session_label ?c k = Some [''ocserv'', ''u'']}
      = {?k}"
    using n old
    by (auto simp: stale_session_def session_label_def s beyond_MaxSessionAge split: if_splits)
  note t = sweep_settles [OF o, where now = "25 * Hour" and k = ?k and s = ?e
      and l = "[''ocserv'', ''u'']" and ksd' = "[]" and ksw' = "[]" and kss' = "[]",
      unfolded Let_def one]
  have r1: "sessions (CleanupOldDisconnects (25 * Hour) [] [] [?k] ?c) ?k = None"
    and r2: "SessionInfo (CleanupOldDisconnects (25 * Hour) [] [] [?k] ?c)
               [''ocserv'', ''u'', [], [], []] = None"
    using t [THEN conjunct2, THEN conjunct1, rule_format, OF conjI [OF g conjI [OF n old']]]
    by simp_all
  have r3: "vec_value (ActiveSessions (CleanupOldDisconnects (25 * Hour) [] [] [?k] ?c))
              [''ocserv'', ''u''] = 0"
    using t [THEN conjunct2, THEN conjunct2, THEN conjunct1] a by simp
  have r4: "CleanupOldDisconnects (25 * Hour) [] [] [] (CleanupOldDisconnects (25 * Hour) [] [] [?k] ?c)
      = CleanupOldDisconnects (25 * Hour) [] [] [?k] ?c"
    using t by blast
  show ?thesis
    using o g n old r1 r2 a r3 r4 by blast
qed

text \<open>
  Claim C7 as it is worded has every session older than 24 hours under a key of
  \<open>(server, username, clientIP, port)\<close> removed. A login on a server named \<open>sid\<close> has the
  key \<open>sid:u:1.2.3.4:1\<close>, which the sweeper takes for an entry of the session manager and
  skips: 25 hours later the session is still in the table.
\<close>

theorem sweep_keeps_old_session_counterexample:
  "sessionKey (Server sid_login) (Username sid_login) (ClientIP sid_login) (Port sid_login)
     = ''sid:u:1.2.3.4:1''
   \<and> sessions (handleLogin sid_login New) ''sid:u:1.2.3.4:1''
       = Some \<lparr> s_Server = ''sid'', s_Username = ''u'', s_ClientIP = ''1.2.3.4'', s_Port = 1,
                s_VpnIP = [], s_Country = [], s_SessionID = [], s_StartTime = 0 \<rparr>
   \<and> map_order (sessions (handleLogin sid_login New)) [''sid:u:1.2.3.4:1'']
   \<and> 24 * Hour < 25 * Hour - 0
   \<and> sessions (CleanupOldDisconnects (25 * Hour) [] [] [''sid:u:1.2.3.4:1'']
        (handleLogin sid_login New)) ''sid:u:1.2.3.4:1''
       = Some \<lparr> s_Server = ''sid'', s_Username = ''u'', s_ClientIP = ''1.2.3.4'', s_Port = 1,
                s_VpnIP = [], s_Country = [], s_SessionID = [], s_StartTime = 0 \<rparr>"
proof -
  let ?c = "handleLogin sid_login New" and ?k = "''sid:u:1.2.3.4:1''"
  have k: "sessionKey (Server sid_login) (Username sid_login) (ClientIP sid_login) (Port sid_login)
     = ?k"
    by (simp add: example_events key_text)
  have s: "sessions ?c
      = [?k \<mapsto> \<lparr> s_Server = ''sid'', s_Username = ''u'', s_ClientIP = ''1.2.3.4'', s_Port = 1,
                s_VpnIP = [], s_Country = [], s_SessionID = [], s_StartTime = 0 \<rparr>]"
    by (simp add: handleLogin_sessions LookupCountry_def New_def example_events key_text)
  have kept: "sessions (CleanupOldDisconnects (25 * Hour) [] [] [?k] ?c) ?k = sessions ?c ?k"
    by (simp add: CleanupOldDisconnects_def s is_sid_key_def)
  have old: "24 * Hour < 25 * Hour - (0::int)"
    by (simp add: Hour_def Minute_def Second_def)
  show ?thesis
    using k old by (simp add: kept s map_order_def)
qed

section \<open>Assigning the VPN address\<close>






section \<open>A login on a key that is already in the table\<close>

text \<open>
  Claim C9. A login whose key \<open>(server, username, clientIP, port)\<close> already has a session
  leaves the set of keys of the session table, and so its size, as it was: the entry is
  replaced by the new login's. The active-session gauge and the connection counter still go
  up by one. Hence after a login, a second login and a disconnect on one key the table has
  no entry for the key, and the active-session gauge is one above where it started.
\<close>

theorem repeated_login_overwrites:
  assumes "Type l1 = EventUserLogin" and "Type l2 = EventUserLogin"
    and "Type d = EventUserDisconnect"
    and "Server l2 = Server l1 \<and> Username l2 = Username l1 \<and> ClientIP l2 = ClientIP l1
         \<and> Port l2 = Port l1"
    and "Server d = Server l1 \<and> Username d = Username l1 \<and> ClientIP d = ClientIP l1
         \<and> Port d = Port l1"
  shows "(let key = sessionKey (Server l1) (Username l1) (ClientIP l1) (Port l1);
              c' = ProcessEvent ks l1 c;
              c3 = ProcessEvent ks3 d (ProcessEvent ks2 l2 (ProcessEvent ks l1 c))
          in (sessions c key \<noteq> None \<longrightarrow>
                dom (sessions c') = dom (sessions c)
                \<and> card (dom (sessions c')) = card (dom (sessions c))
                \<and> sessions c' key
                    = Some \<lparr> s_Server = Server l1, s_Username = Username l1,
                             s_ClientIP = ClientIP l1, s_Port = Port l1, s_VpnIP = [],
                             s_Country = LookupCountry c (ClientIP l1), s_SessionID = [],
                             s_StartTime = Timestamp l1 \<rparr>
                \<and> vec_value (ActiveSessions c') [Server l1, Username l1]
                    = vec_value (ActiveSessions c) [Server l1, Username l1] + 1
                \<and> vec_value (ConnectionsTotal c') [Server l1, Username l1, ClientIP l1]
                    = vec_value (ConnectionsTotal c) [Server l1, Username l1, ClientIP l1] + 1)
             \<and> sessions c3 key = None
             \<and> vec_value (ActiveSessions c3) [Server l1, Username l1]
                 = vec_value (ActiveSessions c) [Server l1, Username l1] + 1)"
proof -
  let ?key = "sessionKey (Server l1) (Username l1) (ClientIP l1) (Port l1)"
  let ?c0 = "LastEventTimestamp_update (\<lambda>_. Unix (Timestamp l1)) c"
  let ?c' = "ProcessEvent ks l1 c"
  let ?c2 = "ProcessEvent ks2 l2 ?c'"
  let ?c3 = "ProcessEvent ks3 d ?c2"
  have c': "?c' = handleLogin l1 ?c0"
    using assms(1) by (simp add: ProcessEvent_cases)
  have first: "dom (sessions ?c') = dom (sessions c)" if "sessions c ?key \<noteq> None"
    using that by (auto simp: c' handleLogin_sessions)
  have entry: "sessions ?c' ?key
      = Some \<lparr> s_Server = Server l1, s_Username = Username l1, s_ClientIP = ClientIP l1,
               s_Port = Port l1, s_VpnIP = [], s_Country = LookupCountry c (ClientIP l1),
               s_SessionID = [], s_StartTime = Timestamp l1 \<rparr>"
    by (simp add: c' handleLogin_sessions LookupCountry_def)
  have gauge: "vec_value (ActiveSessions ?c') [Server l1, Username l1]
      = vec_value (ActiveSessions c) [Server l1, Username l1] + 1"
    by (simp add: c' handleLogin_ActiveSessions vec_value_Inc)
  have total: "vec_value (ConnectionsTotal ?c') [Server l1, Username l1, ClientIP l1]
      = vec_value (ConnectionsTotal c) [Server l1, Username l1, ClientIP l1] + 1"
    by (simp add: c' handleLogin_ConnectionsTotal vec_value_Inc)
  have c2: "?c2 = handleLogin l2 (LastEventTimestamp_update (\<lambda>_. Unix (Timestamp l2)) ?c')"
    using assms(2) by (simp add: ProcessEvent_cases)
  have found2: "sessions ?c2 ?key \<noteq> None"
    using assms(4) by (simp add: c2 handleLogin_sessions)
  have gauge2: "vec_value (ActiveSessions ?c2) [Server l1, Username l1]
      = vec_value (ActiveSessions c) [Server l1, Username l1] + 2"
    using assms(4) gauge by (simp add: c2 handleLogin_ActiveSessions vec_value_Inc)
  have c3: "?c3 = handleDisconnect d (LastEventTimestamp_update (\<lambda>_. Unix (Timestamp d)) ?c2)"
    using assms(3) by (simp add: ProcessEvent_cases)
  have gone: "sessions ?c3 ?key = None"
    using assms(5) by (simp add: c3 handleDisconnect_sessions)
  have gauge3: "vec_value (ActiveSessions ?c3) [Server l1, Username l1]
      = vec_value (ActiveSessions c) [Server l1, Username l1] + 1"
    using assms(5) found2 gauge2
    by (auto simp: c3 handleDisconnect_ActiveSessions vec_value_Dec)
  show ?thesis
    unfolding Let_def using first entry gauge total gone gauge3 by simp
qed

theorem repeated_login_overwrites_witness:
  "sessions (handleLogin login_a New) (sessionKey ''ocserv'' ''u'' ''1.2.3.4'' 1) \<noteq> None
   \<and> dom (sessions (ProcessEvent [] login_a (handleLogin login_a New)))
       = dom (sessions (handleLogin login_a New))
   \<and> vec_value (ActiveSessions (ProcessEvent [] login_a (handleLogin login_a New))) [''ocserv'', ''u'']
       = 2
   \<and> sessions (ProcessEvent [] disconnect_a (ProcessEvent [] login_a
         (ProcessEvent [] login_a (handleLogin login_a New))))
         (sessionKey ''ocserv'' ''u'' ''1.2.3.4'' 1) = None
   \<and> vec_value (ActiveSessions (ProcessEvent [] disconnect_a (ProcessEvent [] login_a
         (ProcessEvent [] login_a (handleLogin login_a New))))) [''ocserv'', ''u''] = 2"
proof -
  let ?c = "handleLogin login_a New"
  have ty: "Type login_a = EventUserLogin" "Type disconnect_a = EventUserDisconnect"
    by (simp_all add: example_events)
  have same: "Server disconnect_a = Server login_a \<and> Username disconnect_a = Username login_a
      \<and> ClientIP disconnect_a = ClientIP login_a \<and> Port disconnect_a = Port login_a"
    by (simp add: example_events)
  have f: "Server login_a = ''ocserv''" "Username login_a = ''u''" "ClientIP login_a = ''1.2.3.4''"
    "Port login_a = 1"
    by (simp_all add: example_events)
  have s: "sessions ?c (sessionKey ''ocserv'' ''u'' ''1.2.3.4'' 1) \<noteq> None"
    by (simp add: handleLogin_sessions f)
  have a: "vec_value (ActiveSessions ?c) [''ocserv'', ''u''] = 1"
    by (simp add: handleLogin_ActiveSessions vec_value_Inc New_def f)
  note t = repeated_login_overwrites [OF ty(1) ty(1) ty(2) _ same, of "[]" ?c "[]" "[]",
      unfolded Let_def f]
  show ?thesis
    using t s a by simp
qed

section \<open>Entries of the session manager stay\<close>

lemma sid_free_prefix:
  assumes "sid_free server"
  shows "take 4 (server @ CHR '':'' # rest) \<noteq> ''sid:''"
proof (cases server)
  case Nil
  then show ?thesis by simp
next
  case c1: (Cons a l1)
  show ?thesis
  proof (cases l1)
    case Nil
    with c1 show ?thesis by simp
  next
    case c2: (Cons b l2)
    show ?thesis
    proof (cases l2)
      case Nil
      with c1 c2 show ?thesis by simp
    next
      case c3: (Cons c l3)
      show ?thesis
      proof (cases l3)
        case Nil
        with c1 c2 c3 assms show ?thesis by (simp add: sid_free_def)
      next
        case (Cons d l4)
        with c1 c2 c3 assms show ?thesis by (simp add: sid_free_def)
      qed
    qed
  qed
qed

lemma sid_free_sessionKey:
  "sid_free server \<Longrightarrow> \<not> is_sid_key (sessionKey server username clientIP port)"
  using sid_free_prefix [of server "username @ '':'' @ clientIP @ '':'' @ fmt_d port"]
  by (simp add: is_sid_key_def sessionKey_def)

lemma is_sid_key_sidKey: "is_sid_key (sidKey server sessionID)"
  by (simp add: is_sid_key_def sidKey_def)


lemma secondary_entry_is_sid_key: "secondary_entry k s \<Longrightarrow> is_sid_key k"
  using is_sid_key_sidKey by (auto simp: secondary_entry_def)

lemma handleVPNIP_entry:
  "sessions (handleVPNIP ks event c) k = sessions c k
   \<or> (\<exists>s. sessions c k = Some s
          \<and> sessions (handleVPNIP ks event c) k = Some (s\<lparr>s_VpnIP := VpnIP event\<rparr>))"
  by (induction ks) (auto simp: Let_def split: option.splits)

lemma step_entry:
  assumes "is_sid_key k" and "sessions c k = Some s" and "partition_sid_free a"
    and "\<not> restarts k a"
  shows "\<exists>v. sessions (step c a) k = Some (s\<lparr>s_VpnIP := v\<rparr>)"
proof (cases a)
  case (Process ks event)
  let ?c0 = "LastEventTimestamp_update (\<lambda>_. Unix (Timestamp event)) c"
  have c0: "sessions ?c0 k = Some s"
    using assms(2) by simp
  have same: "sessions c' k = Some s \<Longrightarrow> \<exists>v. sessions c' k = Some (s\<lparr>s_VpnIP := v\<rparr>)" for c'
    by (rule exI [of _ "s_VpnIP s"]) simp
  from assms(3) Process have "sid_free (Server event)"
    by simp
  then have other: "sessionKey (Server event) (Username event) (ClientIP event) (Port event) \<noteq> k"
    using assms(1) sid_free_sessionKey by blast
  have "\<exists>v. sessions (ProcessEvent ks event c) k = Some (s\<lparr>s_VpnIP := v\<rparr>)"
  proof (cases "Type event")
    case EventUserLogin
    with c0 other show ?thesis
      by (intro same) (simp add: ProcessEvent_cases handleLogin_sessions)
  next
    case EventUserDisconnect
    with c0 other show ?thesis
      by (intro same) (simp add: ProcessEvent_cases handleDisconnect_sessions)
  next
    case EventSessionStart
    with assms(4) Process have "sidKey (Server event) (SessionID event) \<noteq> k"
      by simp
    with c0 EventSessionStart show ?thesis
      by (intro same) (simp add: ProcessEvent_cases handleSessionStart_sessions)
  next
    case EventVPNIPAssigned
    from handleVPNIP_entry [of ks event ?c0 k] c0
    have "sessions (handleVPNIP ks event ?c0) k = Some s
          \<or> sessions (handleVPNIP ks event ?c0) k = Some (s\<lparr>s_VpnIP := VpnIP event\<rparr>)"
      by auto
    then show ?thesis
      using same [of "handleVPNIP ks event ?c0"] EventVPNIPAssigned
      by (auto simp: ProcessEvent_cases)
  qed (use c0 in \<open>(intro same, simp add: ProcessEvent_cases others_sessions)+\<close>)
  with Process show ?thesis by simp
next
  case (Cleanup now ksd ksw kss)
  have "\<not> stale_session now (sweepWorkerContexts now ksw (sweepDisconnects now ksd c)) k"
    using assms(1) by (simp add: stale_session_def split: option.splits)
  with assms(2) Cleanup have "sessions (step c a) k = Some s"
    by (simp add: CleanupOldDisconnects_def sweepSessions_result sweepWorkerContexts_unchanged
        sweepDisconnects_unchanged)
  then show ?thesis
    by (intro exI [of _ "s_VpnIP s"]) simp
qed

lemma run_entry:
  assumes "is_sid_key k"
  shows "sessions c k = Some s \<Longrightarrow> list_all partition_sid_free acts \<Longrightarrow>
         \<not> list_ex (restarts k) acts \<Longrightarrow>
         \<exists>v. sessions (run acts c) k = Some (s\<lparr>s_VpnIP := v\<rparr>)"
proof (induction acts arbitrary: c s)
  case Nil
  then show ?case by (auto simp: run_def intro: exI [of _ "s_VpnIP s"])
next
  case (Cons a acts)
  from Cons.prems obtain v where v: "sessions (step c a) k = Some (s\<lparr>s_VpnIP := v\<rparr>)"
    using step_entry [OF assms, of c s a] by auto
  from Cons.prems have "list_all partition_sid_free acts" "\<not> list_ex (restarts k) acts"
    by simp_all
  from Cons.IH [OF v this] obtain v'
    where "sessions (run acts (step c a)) k = Some (s\<lparr>s_VpnIP := v, s_VpnIP := v'\<rparr>)"
    by blast
  then show ?case
    by (auto simp: run_def)
qed

lemma step_secondary:
  assumes "secondary_at c k" and "partition_sid_free a"
  shows "secondary_at (step c a) k"
proof -
  from assms(1) obtain s where s: "sessions c k = Some s" "secondary_entry k s"
    by (auto simp: secondary_at_def split: option.splits)
  have key: "is_sid_key k"
    using s(2) by (rule secondary_entry_is_sid_key)
  show ?thesis
  proof (cases "restarts k a")
    case False
    from step_entry [OF key s(1) assms(2) False] s(2) show ?thesis
      by (auto simp: secondary_at_def secondary_entry_def)
  next
    case True
    then obtain ks event where a: "a = Process ks event" "Type event = EventSessionStart"
        "sidKey (Server event) (SessionID event) = k"
      by (cases a) auto
    then show ?thesis
      by (simp add: secondary_at_def secondary_entry_def ProcessEvent_cases
          handleSessionStart_sessions)
  qed
qed

lemma run_secondary:
  "secondary_at c k \<Longrightarrow> list_all partition_sid_free acts \<Longrightarrow> secondary_at (run acts c) k"
proof (induction acts arbitrary: c)
  case Nil
  then show ?case by (simp add: run_def)
next
  case (Cons a acts)
  from Cons.prems have "secondary_at (step c a) k"
    by (simp add: step_secondary)
  moreover from Cons.prems have "list_all partition_sid_free acts" by simp
  ultimately have "secondary_at (run acts (step c a)) k" by (rule Cons.IH)
  then show ?case by (simp add: run_def)
qed

lemma step_keeps_sid_key:
  assumes "is_sid_key k" and "sessions c k \<noteq> None" and "partition_sid_free a"
  shows "sessions (step c a) k \<noteq> None"
proof -
  from assms(2) obtain s where s: "sessions c k = Some s" by auto
  show ?thesis
  proof (cases "restarts k a")
    case False
    from step_entry [OF assms(1) s assms(3) False] show ?thesis by auto
  next
    case True
    then obtain ks event where a: "a = Process ks event" "Type event = EventSessionStart"
        "sidKey (Server event) (SessionID event) = k"
      by (cases a) auto
    then show ?thesis
      by (simp add: ProcessEvent_cases handleSessionStart_sessions)
  qed
qed

lemma run_keeps_sid_key:
  assumes "is_sid_key k"
  shows "sessions c k \<noteq> None \<Longrightarrow> list_all partition_sid_free acts \<Longrightarrow>
         sessions (run acts c) k \<noteq> None"
proof (induction acts arbitrary: c)
  case Nil
  then show ?case by (simp add: run_def)
next
  case (Cons a acts)
  from Cons.prems have "sessions (step c a) k \<noteq> None"
    using step_keeps_sid_key [OF assms, of c a] by simp
  with Cons show ?case
    by (simp add: run_def)
qed

text \<open>
  Claim C10, as the code has it. A SessionStart event stores its entry under a key that
  begins with \<open>sid:\<close>. Provided no event comes from a server that is named \<open>sid\<close> or whose
  name begins with \<open>sid:\<close>, the entries of the session manager stay through all later
  events and sweeps: the dispatch has no handler that removes one, a login writes and a
  disconnect deletes only the key of its own \<open>(server, username, clientIP, port)\<close>, which
  then does not begin with \<open>sid:\<close>, and the sweeper skips the keys that do. So a key that
  holds such an entry holds one ever after, and the set of these keys only grows. The
  entry itself stays as it is but for its VPN address, which a VpnIpAssigned event may
  set, until a SessionStart event writes the same key again.
\<close>

theorem sid_entries_persist:
  assumes "list_all partition_sid_free acts"
  shows "{k. secondary_at c k} \<subseteq> {k. secondary_at (run acts c) k}
         \<and> {k \<in> dom (sessions c). is_sid_key k} \<subseteq> {k \<in> dom (sessions (run acts c)). is_sid_key k}
         \<and> (is_sid_key k \<and> sessions c k = Some s \<and> \<not> list_ex (restarts k) acts \<longrightarrow>
              (\<exists>v. sessions (run acts c) k = Some (s\<lparr>s_VpnIP := v\<rparr>)))
         \<and> (Type event = EventSessionStart \<longrightarrow>
              sessions (ProcessEvent ks event c) (sidKey (Server event) (SessionID event))
                = Some \<lparr> s_Server = Server event, s_Username = Username event, s_ClientIP = [],
                         s_Port = 0, s_VpnIP = [], s_Country = [],
                         s_SessionID = SessionID event, s_StartTime = Timestamp event \<rparr>
              \<and> is_sid_key (sidKey (Server event) (SessionID event))
              \<and> secondary_at (ProcessEvent ks event c) (sidKey (Server event) (SessionID event))
              \<and> secondary_at (run acts (ProcessEvent ks event c))
                   (sidKey (Server event) (SessionID event))
              \<and> (\<not> list_ex (restarts (sidKey (Server event) (SessionID event))) acts \<longrightarrow>
                   (\<exists>v. sessions (run acts (ProcessEvent ks event c))
                          (sidKey (Server event) (SessionID event))
                     = Some \<lparr> s_Server = Server event, s_Username = Username event,
                              s_ClientIP = [], s_Port = 0, s_VpnIP = v, s_Country = [],
                              s_SessionID = SessionID event, s_StartTime = Timestamp event \<rparr>)))"
proof (intro conjI impI)
  show "{k. secondary_at c k} \<subseteq> {k. secondary_at (run acts c) k}"
    using run_secondary [OF _ assms] by blast
  show "{k \<in> dom (sessions c). is_sid_key k} \<subseteq> {k \<in> dom (sessions (run acts c)). is_sid_key k}"
    using run_keeps_sid_key [OF _ _ assms] by blast
  show "\<exists>v. sessions (run acts c) k = Some (s\<lparr>s_VpnIP := v\<rparr>)"
    if "is_sid_key k \<and> sessions c k = Some s \<and> \<not> list_ex (restarts k) acts"
    using that run_entry [OF _ _ assms] by blast
next
  assume ty: "Type event = EventSessionStart"
  let ?k = "sidKey (Server event) (SessionID event)"
  let ?s = "\<lparr> s_Server = Server event, s_Username = Username event, s_ClientIP = [],
              s_Port = 0, s_VpnIP = [], s_Country = [],
              s_SessionID = SessionID event, s_StartTime = Timestamp event \<rparr>"
  show stored: "sessions (ProcessEvent ks event c) ?k = Some ?s"
    using ty by (simp add: ProcessEvent_cases handleSessionStart_sessions)
  show key: "is_sid_key ?k"
    by (rule is_sid_key_sidKey)
  show sec: "secondary_at (ProcessEvent ks event c) ?k"
    by (simp add: secondary_at_def stored secondary_entry_def)
  show "secondary_at (run acts (ProcessEvent ks event c)) ?k"
    using sec assms by (rule run_secondary)
  show "\<exists>v. sessions (run acts (ProcessEvent ks event c)) ?k
          = Some \<lparr> s_Server = Server event, s_Username = Username event,
                   s_ClientIP = [], s_Port = 0, s_VpnIP = v, s_Country = [],
                   s_SessionID = SessionID event, s_StartTime = Timestamp event \<rparr>"
    if "\<not> list_ex (restarts ?k) acts"
    using run_entry [OF key stored assms that] by simp
qed

theorem sid_entries_persist_witness:
  "list_all partition_sid_free
      [Process [] login_a, Process [] disconnect_a, Process [''sid:ocserv:yKsy7b''] vpnip_a,
       Cleanup (25 * Hour) [] [] [''sid:ocserv:yKsy7b''], Process [] invalidate_a]
   \<and> Type start_a = EventSessionStart
   \<and> \<not> list_ex (restarts ''sid:ocserv:yKsy7b'')
        [Process [] login_a, Process [] disconnect_a, Process [''sid:ocserv:yKsy7b''] vpnip_a,
         Cleanup (25 * Hour) [] [] [''sid:ocserv:yKsy7b''], Process [] invalidate_a]
   \<and> secondary_at
        (run [Process [] login_a, Process [] disconnect_a, Process [''sid:ocserv:yKsy7b''] vpnip_a,
              Cleanup (25 * Hour) [] [] [''sid:ocserv:yKsy7b''], Process [] invalidate_a]
           (ProcessEvent [] start_a New)) ''sid:ocserv:yKsy7b''
   \<and> (\<exists>v. sessions
        (run [Process [] login_a, Process [] disconnect_a, Process [''sid:ocserv:yKsy7b''] vpnip_a,
              Cleanup (25 * Hour) [] [] [''sid:ocserv:yKsy7b''], Process [] invalidate_a]
           (ProcessEvent [] start_a New)) ''sid:ocserv:yKsy7b''
        = Some \<lparr> s_Server = ''ocserv'', s_Username = ''u'', s_ClientIP = [], s_Port = 0,
                 s_VpnIP = v, s_Country = [], s_SessionID = ''yKsy7b'', s_StartTime = 0 \<rparr>)
   \<and> is_sid_key ''sid:ocserv:yKsy7b''
   \<and> sessions announced_twice ''sid:ocserv:yKsy7b''
        = Some \<lparr> s_Server = ''ocserv'', s_Username = ''u'', s_ClientIP = [], s_Port = 0,
                 s_VpnIP = [], s_Country = [], s_SessionID = ''yKsy7b'', s_StartTime = 0 \<rparr>
   \<and> list_all partition_sid_free [Process [] disconnect_a, Cleanup (25 * Hour) [] [] []]
   \<and> \<not> list_ex (restarts ''sid:ocserv:yKsy7b'')
        [Process [] disconnect_a, Cleanup (25 * Hour) [] [] []]
   \<and> (\<exists>v. sessions (run [Process [] disconnect_a, Cleanup (25 * Hour) [] [] []] announced_twice)
          ''sid:ocserv:yKsy7b''
        = Some \<lparr> s_Server = ''ocserv'', s_Username = ''u'', s_ClientIP = [], s_Port = 0,
                 s_VpnIP = v, s_Country = [], s_SessionID = ''yKsy7b'', s_StartTime = 0 \<rparr>)"
proof -
  let ?acts = "[Process [] login_a, Process [] disconnect_a,
                Process [''sid:ocserv:yKsy7b''] vpnip_a,
                Cleanup (25 * Hour) [] [] [''sid:ocserv:yKsy7b''], Process [] invalidate_a]"
  let ?acts' = "[Process [] disconnect_a, Cleanup (25 * Hour) [] [] []]"
  let ?s = "\<lparr> s_Server = ''ocserv'', s_Username = ''u'', s_ClientIP = [], s_Port = 0,
              s_VpnIP = [], s_Country = [], s_SessionID = ''yKsy7b'', s_StartTime = 0 \<rparr>"
  have free: "list_all partition_sid_free ?acts" "list_all partition_sid_free ?acts'"
    by (simp_all add: example_events sid_free_def)
  have ty: "Type start_a = EventSessionStart"
    by (simp add: example_events)
  have k: "sidKey ''ocserv'' ''yKsy7b'' = ''sid:ocserv:yKsy7b''"
    by (simp add: key_text)
  have f: "Server start_a = ''ocserv''" "Username start_a = ''u''" "SessionID start_a = ''yKsy7b''"
    "Timestamp start_a = 0"
    by (simp_all add: example_events)
  have once: "\<not> list_ex (restarts ''sid:ocserv:yKsy7b'') ?acts"
    "\<not> list_ex (restarts ''sid:ocserv:yKsy7b'') ?acts'"
    by (simp_all add: example_events)
  have key: "is_sid_key ''sid:ocserv:yKsy7b''"
    by (simp add: is_sid_key_def)
  have there: "sessions announced_twice ''sid:ocserv:yKsy7b'' = Some ?s"
    by (simp add: announced_twice_def handleLogin_sessions handleSessionStart_sessions
        example_events key_text)
  note t = sid_entries_persist [OF free(1), where event = start_a and ks = "[]" and c = New]
  note t4 = t [THEN conjunct2, THEN conjunct2, THEN conjunct2, rule_format, OF ty, unfolded f k]
  have a: "secondary_at (run ?acts (ProcessEvent [] start_a New)) ''sid:ocserv:yKsy7b''"
    by (rule t4 [THEN conjunct2, THEN conjunct2, THEN conjunct2, THEN conjunct1])
  have b: "\<exists>v. sessions (run ?acts (ProcessEvent [] start_a New)) ''sid:ocserv:yKsy7b''
        = Some \<lparr> s_Server = ''ocserv'', s_Username = ''u'', s_ClientIP = [], s_Port = 0,
                 s_VpnIP = v, s_Country = [], s_SessionID = ''yKsy7b'', s_StartTime = 0 \<rparr>"
    by (rule t4 [THEN conjunct2, THEN conjunct2, THEN conjunct2, THEN conjunct2, rule_format,
          OF once(1)])
  note u = sid_entries_persist [OF free(2), where c = announced_twice
      and k = "''sid:ocserv:yKsy7b''" and s = ?s]
  have "\<exists>v. sessions (run ?acts' announced_twice) ''sid:ocserv:yKsy7b''
          = Some (?s\<lparr>s_VpnIP := v\<rparr>)"
    by (rule u [THEN conjunct2, THEN conjunct2, THEN conjunct1, rule_format,
          OF conjI [OF key conjI [OF there once(2)]]])
  then have c: "\<exists>v. sessions (run ?acts' announced_twice) ''sid:ocserv:yKsy7b''
        = Some \<lparr> s_Server = ''ocserv'', s_Username = ''u'', s_ClientIP = [], s_Port = 0,
                 s_VpnIP = v, s_Country = [], s_SessionID = ''yKsy7b'', s_StartTime = 0 \<rparr>"
    by simp
  show ?thesis
    by (intro conjI free ty once a b key there c)
qed

text \<open>
  Claim C10 as it is worded only asks that no server be named \<open>sid\<close>. On server \<open>x\<close> the
  session manager starts the session \<open>u:1.2.3.4:1\<close>, stored under \<open>sid:x:u:1.2.3.4:1\<close>; a
  disconnect of user \<open>u\<close> at \<open>1.2.3.4\<close>, port 1, on server \<open>sid:x\<close> has that very key and
  deletes the entry.
\<close>

theorem sid_entry_deleted_counterexample:
  "Server start_x \<noteq> ''sid'' \<and> Server disconnect_sidx \<noteq> ''sid''
   \<and> sidKey (Server start_x) (SessionID start_x) = ''sid:x:u:1.2.3.4:1''
   \<and> sessions (run [Process [] start_x] New) ''sid:x:u:1.2.3.4:1'' \<noteq> None
   \<and> sessions (run [Process [] start_x, Process [] disconnect_sidx] New) ''sid:x:u:1.2.3.4:1''
       = None"
proof -
  have ty: "Type start_x = EventSessionStart" "Type disconnect_sidx = EventUserDisconnect"
    by (simp_all add: example_events)
  have k1: "sidKey (Server start_x) (SessionID start_x) = ''sid:x:u:1.2.3.4:1''"
    and k2: "sessionKey (Server disconnect_sidx) (Username disconnect_sidx)
               (ClientIP disconnect_sidx) (Port disconnect_sidx) = ''sid:x:u:1.2.3.4:1''"
    by (simp_all add: example_events key_text)
  have a: "sessions (ProcessEvent [] start_x New) ''sid:x:u:1.2.3.4:1'' \<noteq> None"
    by (simp add: ProcessEvent_cases(3) [OF ty(1)] handleSessionStart_sessions k1)
  have b: "sessions (ProcessEvent [] disconnect_sidx (ProcessEvent [] start_x New))
             ''sid:x:u:1.2.3.4:1'' = None"
    by (simp add: ProcessEvent_cases(2) [OF ty(2)] handleDisconnect_sessions k2)
  show ?thesis
    using a b k1 by (simp add: run_def example_events)
qed

end
